theory Spec2Isabelle
  imports Main "HOL-Library.AList" "HOL-Library.Multiset" "HOL-Library.Sublist"
begin

section \<open>The worker service (the ffmpeg wrapper that owns the session registry)\<close>

text \<open>
  The wrapper keeps its sessions in \<^verbatim>\<open>const activeStreams = new Map()\<close>. A JavaScript
  \<^verbatim>\<open>Map\<close> has unique keys and iterates in insertion order; \<^verbatim>\<open>set\<close> on a key that is
  present replaces the value in place and appends otherwise. An association list with
  \<^const>\<open>map_of\<close>, \<^const>\<open>AList.update\<close> and \<^const>\<open>AList.delete\<close> behaves the same way.
\<close>

subsection \<open>Data\<close>

text \<open>
  The JSON shape \<^verbatim>\<open>{ id, url, proxyUrl, status, startTime, ignoreErrors }\<close> that the wrapper
  sends in its responses. The status is the JavaScript string the code stores; the wrapper
  only ever writes \<^verbatim>\<open>'running'\<close> and \<^verbatim>\<open>'stopped'\<close>.
\<close>

record stream_json =
  sid :: string
  url :: string
  proxyUrl :: string
  status :: string
  startTime :: string
  ignoreErrors :: bool

text \<open>A registry entry: the JSON fields plus the handle of the child process.\<close>

record stream = stream_json +
  process :: nat

text \<open>
  The state of the wrapper: the registry, the directories that exist (absolute paths, as
  lists of segments), and the child processes. \<open>procs\<close> maps the handle of every running
  child whose \<^verbatim>\<open>'close'\<close> event has not fired yet to the stream id captured by its
  \<^verbatim>\<open>'close'\<close> callback; \<open>signalled\<close> holds the handles that \<^verbatim>\<open>kill()\<close> was called on;
  \<open>unstarted\<close> holds the children that \<^verbatim>\<open>spawn\<close> returned although no process could be
  started, and whose \<^verbatim>\<open>'error'\<close> event has not fired yet; \<open>spawned\<close> lists the arguments
  every child was started with.
\<close>

record hls_state =
  activeStreams :: "(string \<times> stream) list"
  dirs :: "string list set"
  procs :: "nat \<rightharpoonup> string"
  signalled :: "nat set"
  unstarted :: "nat set"
  spawned :: "(nat \<times> string list) list"
  next_pid :: nat

text \<open>
  How the launch of a worker goes. \<^verbatim>\<open>fs.mkdir\<close> may raise; \<^verbatim>\<open>spawn\<close> may raise (Node does so
  for some errors of the system call); or \<^verbatim>\<open>spawn\<close> returns a child although no process was
  started, and reports the failure later through the \<^verbatim>\<open>'error'\<close> event of the child. The
  last is what Node does when the binary is missing (\<^verbatim>\<open>ENOENT\<close>) or may not be executed
  (\<^verbatim>\<open>EACCES\<close>), and when the system has no room for another process (\<^verbatim>\<open>EAGAIN\<close>).
\<close>

datatype launch = Launched | MkdirFails string | SpawnThrows string | SpawnEmitsError

text \<open>The message of the exception that \<^verbatim>\<open>startStream\<close> raises, if it raises.\<close>

fun launch_error :: "launch \<Rightarrow> string option" where
  "launch_error (MkdirFails m) = Some m"
| "launch_error (SpawnThrows m) = Some m"
| "launch_error Launched = None"
| "launch_error SpawnEmitsError = None"

text \<open>
  What the outside world contributes to one request: the clock (as \<^verbatim>\<open>Date.now().toString()\<close>
  and as \<^verbatim>\<open>new Date().toISOString()\<close>), how the launch of a worker goes, and whether \<^verbatim>\<open>fs.rm\<close>
  raises. The last three fields are read by the backend only:
  \<^item> \<open>net_error\<close> is the message of the error when an HTTP call does not reach the wrapper;
  \<^item> \<open>route\<close> says what becomes of a stream id that the backend writes into the path of a
    request to the wrapper (\<^verbatim>\<open>`http://hls-proxy:8080/stop/${req.params.id}`\<close>, without
    encoding it): either the \<^verbatim>\<open>:id\<close> that the router of the wrapper extracts from the path,
    or the status code with which the wrapper answers when no route matches or the
    parameter cannot be decoded. This is decided by the HTTP libraries, which are not among
    the sources; an id of digits, as \<^verbatim>\<open>Date.now().toString()\<close> makes them, is read as it is;
  \<^item> \<open>cache\<close> is the channel cache the backend loads (the \<^verbatim>\<open>channels\<close> of every provider, in
    the order of \<^verbatim>\<open>Object.values\<close>).
\<close>

text \<open>An entry of the channel cache file (\<^verbatim>\<open>channels_cache.json\<close>).\<close>

record channel =
  ch_name :: string
  ch_logo :: "string option"
  ch_url :: string

record env =
  now_ms :: string
  now_iso :: string
  launch :: launch
  rm_ok :: bool
  net_error :: "string option"
  route :: "string \<Rightarrow> nat + string"
  cache :: "channel list list"

text \<open>
  A response is either \<^verbatim>\<open>res.json(data)\<close> or \<^verbatim>\<open>res.status(code).json({ error: message })\<close>.
  The codes the handlers use are 400 (the request is malformed), 404 (the stream id is not
  in the registry) and 500 (an exception was caught, for example the worker did not start).
\<close>

datatype 'a response = Json 'a | Error nat string

text \<open>A number in decimal, as a status code appears in a message.\<close>

fun digits :: "nat \<Rightarrow> string" where
  "digits n =
     (if n < 10 then [char_of (48 + n)] else digits (n div 10) @ [char_of (48 + n mod 10)])"

declare digits.simps [simp del]

record start_req =
  req_url :: "string option"
  req_id :: "string option"
  req_ignoreErrors :: bool

subsection \<open>Directories\<close>

text \<open>
  \<^verbatim>\<open>path.join(STREAMS_DIR, id)\<close> joins with a slash and normalises: empty segments and \<^verbatim>\<open>.\<close>
  are dropped and \<^verbatim>\<open>..\<close> removes the segment before it (at the root it is dropped). A
  directory is identified by the list of its segments from the root, so different ids may
  name the same directory.
\<close>

fun split_path :: "string \<Rightarrow> string list" where
  "split_path [] = [[]]"
| "split_path (c # cs) =
     (if c = CHR ''/'' then [] # split_path cs
      else (c # hd (split_path cs)) # tl (split_path cs))"

definition normalize_path :: "string list \<Rightarrow> string list" where
  "normalize_path segs =
     foldl (\<lambda>p seg. if seg = [] \<or> seg = ''.'' then p
                     else if seg = ''..'' then butlast p
                     else p @ [seg]) [] segs"

definition STREAMS_DIR :: "string list" where
  "STREAMS_DIR = [''app'', ''data'', ''streams'']"

definition streamDir :: "string \<Rightarrow> string list" where
  "streamDir i = normalize_path (STREAMS_DIR @ split_path i)"

definition path_string :: "string list \<Rightarrow> string" where
  "path_string p = concat (map (\<lambda>seg. CHR ''/'' # seg) p)"

text \<open>
  \<^verbatim>\<open>fs.mkdir(p, { recursive: true })\<close> creates the directory and the missing ones above it;
  \<^verbatim>\<open>fs.rm(p, { recursive: true, force: true })\<close> removes the directory and all below it.
\<close>

definition mkdir_p :: "string list \<Rightarrow> string list set \<Rightarrow> string list set" where
  "mkdir_p p ds = ds \<union> set (prefixes p)"

definition rm_rf :: "string list \<Rightarrow> string list set \<Rightarrow> string list set" where
  "rm_rf p ds = {q \<in> ds. \<not> prefix p q}"

text \<open>The wrapper starts with an empty registry, after \<^verbatim>\<open>ensureDirectories()\<close>.\<close>

definition init_hls :: hls_state where
  "init_hls =
     \<lparr>activeStreams = [], dirs = mkdir_p STREAMS_DIR {}, procs = Map.empty, signalled = {},
      unstarted = {}, spawned = [], next_pid = 0\<rparr>"

subsection \<open>Child processes\<close>

text \<open>\<^verbatim>\<open>process.kill()\<close>: a child that already closed ignores the call.\<close>

definition kill :: "nat \<Rightarrow> hls_state \<Rightarrow> hls_state" where
  "kill h s = (if procs s h = None then s else s\<lparr>signalled := insert h (signalled s)\<rparr>)"

text \<open>\<^verbatim>\<open>fs.rm(streamDir, { recursive: true, force: true })\<close>, inside a handler that catches
  and logs its failure.\<close>

definition rm_dir :: "env \<Rightarrow> string \<Rightarrow> hls_state \<Rightarrow> hls_state" where
  "rm_dir e i s = (if rm_ok e then s\<lparr>dirs := rm_rf (streamDir i) (dirs s)\<rparr> else s)"

text \<open>The arguments that \<^verbatim>\<open>startStream\<close> passes to ffmpeg; \<open>ign\<close> is \<^verbatim>\<open>options.ignoreErrors\<close>.\<close>

definition ffmpegArgs :: "string \<Rightarrow> string \<Rightarrow> bool \<Rightarrow> string list" where
  "ffmpegArgs i u ign =
     [''-i'', u, ''-c'', ''copy'', ''-f'', ''hls'', ''-hls_time'', ''4'', ''-hls_list_size'', ''5'',
      ''-hls_flags'', ''delete_segments+append_list+discont_start'',
      ''-hls_segment_type'', ''mpegts'', ''-hls_init_time'', ''4'',
      ''-hls_playlist_type'', ''event'', ''-method'', ''PUT'', ''-timeout'', ''10'',
      ''-reconnect'', ''1'', ''-reconnect_at_eof'', ''1'', ''-reconnect_streamed'', ''1'',
      ''-reconnect_delay_max'', ''5'', ''-analyzeduration'', ''2147483647'',
      ''-probesize'', ''2147483647'']
     @ (if ign then [''-xerror''] else [])
     @ [''-hls_segment_filename'', path_string (streamDir i @ [''segment%d.ts'']),
        path_string (streamDir i @ [''playlist.m3u8''])]"

text \<open>
  \<^verbatim>\<open>startStream(id, url, options)\<close>: creates the stream directory, spawns ffmpeg and
  registers the \<^verbatim>\<open>'close'\<close> callback, which captures \<open>id\<close>. The result is the handle of the
  child, or the message of the exception raised by \<^verbatim>\<open>fs.mkdir\<close> or \<^verbatim>\<open>spawn\<close>. No listener is
  registered for the \<^verbatim>\<open>'error'\<close> event of the child, so a child that could not be started
  is returned like any other.
\<close>

definition startStream ::
  "env \<Rightarrow> string \<Rightarrow> string \<Rightarrow> bool \<Rightarrow> hls_state \<Rightarrow> (string + nat) \<times> hls_state" where
  "startStream e i u ign s =
     (case launch e of
        MkdirFails m \<Rightarrow> (Inl m, s)
      | SpawnThrows m \<Rightarrow> (Inl m, s\<lparr>dirs := mkdir_p (streamDir i) (dirs s)\<rparr>)
      | Launched \<Rightarrow>
          (Inr (next_pid s),
           s\<lparr>dirs := mkdir_p (streamDir i) (dirs s),
             procs := (procs s)(next_pid s \<mapsto> i),
             spawned := spawned s @ [(next_pid s, ffmpegArgs i u ign)],
             next_pid := Suc (next_pid s)\<rparr>)
      | SpawnEmitsError \<Rightarrow>
          (Inr (next_pid s),
           s\<lparr>dirs := mkdir_p (streamDir i) (dirs s),
             unstarted := insert (next_pid s) (unstarted s),
             spawned := spawned s @ [(next_pid s, ffmpegArgs i u ign)],
             next_pid := Suc (next_pid s)\<rparr>))"

text \<open>
  The \<^verbatim>\<open>'close'\<close> callback of child \<open>h\<close>: if the registry still has the captured id, the entry
  is marked \<^verbatim>\<open>'stopped'\<close> and the stream directory is removed. The event can only happen
  for a child that has not closed before.
\<close>

definition set_status :: "string \<Rightarrow> string \<Rightarrow> (string \<times> stream) list \<Rightarrow> (string \<times> stream) list" where
  "set_status i v m =
     (case map_of m i of None \<Rightarrow> m | Some st \<Rightarrow> AList.update i (st\<lparr>status := v\<rparr>) m)"

definition on_close :: "env \<Rightarrow> nat \<Rightarrow> hls_state \<Rightarrow> hls_state" where
  "on_close e h s =
     (case procs s h of
        None \<Rightarrow> s
      | Some i \<Rightarrow>
          (let s1 = s\<lparr>procs := (procs s)(h := None), signalled := signalled s - {h}\<rparr>
           in if map_of (activeStreams s1) i \<noteq> None
              then rm_dir e i (s1\<lparr>activeStreams := set_status i ''stopped'' (activeStreams s1)\<rparr>)
              else s1))"

text \<open>
  The \<^verbatim>\<open>'error'\<close> event of a child that could not be started. An \<^verbatim>\<open>'error'\<close> event without a
  listener is raised as an exception that nothing catches, which ends the wrapper process:
  what it had in memory is lost, the directories stay. The state after the event is that
  of a wrapper started anew.
\<close>

definition on_error :: "nat \<Rightarrow> hls_state \<Rightarrow> hls_state" where
  "on_error h s =
     (if h \<in> unstarted s then init_hls\<lparr>dirs := mkdir_p STREAMS_DIR (dirs s)\<rparr> else s)"

subsection \<open>Request handlers\<close>

definition to_json :: "stream \<Rightarrow> stream_json" where
  "to_json st =
     \<lparr>sid = sid st, url = url st, proxyUrl = proxyUrl st, status = status st,
      startTime = startTime st, ignoreErrors = ignoreErrors st\<rparr>"

text \<open>\<^verbatim>\<open>id || Date.now().toString()\<close>: a missing or empty id is replaced.\<close>

definition streamId_of :: "env \<Rightarrow> start_req \<Rightarrow> string" where
  "streamId_of e r =
     (case req_id r of None \<Rightarrow> now_ms e | Some i \<Rightarrow> if i = [] then now_ms e else i)"

text \<open>\<^verbatim>\<open>app.post('/start')\<close>.\<close>

definition post_start :: "env \<Rightarrow> start_req \<Rightarrow> hls_state \<Rightarrow> stream_json response \<times> hls_state" where
  "post_start e r s =
     (case req_url r of
        None \<Rightarrow> (Error 400 ''URL is required'', s)
      | Some u \<Rightarrow>
          if u = [] then (Error 400 ''URL is required'', s)
          else
            (let streamId = streamId_of e r;
                 s1 = (case map_of (activeStreams s) streamId of
                         None \<Rightarrow> s
                       | Some existingStream \<Rightarrow>
                           if status existingStream = ''running''
                           then kill (process existingStream) s else s)
             in case startStream e streamId u (req_ignoreErrors r) s1 of
                  (Inl m, s2) \<Rightarrow> (Error 500 m, s2)
                | (Inr ffmpeg, s2) \<Rightarrow>
                    (let st = \<lparr>sid = streamId, url = u,
                               proxyUrl = ''/stream/'' @ streamId @ ''/playlist.m3u8'',
                               status = ''running'', startTime = now_iso e,
                               ignoreErrors = req_ignoreErrors r, process = ffmpeg\<rparr>
                     in (Json (to_json st),
                         s2\<lparr>activeStreams := AList.update streamId st (activeStreams s2)\<rparr>))))"

text \<open>\<^verbatim>\<open>app.post('/restart/:id')\<close> with the \<^verbatim>\<open>ignoreErrors\<close> of the request body.\<close>

definition post_restart :: "env \<Rightarrow> string \<Rightarrow> bool \<Rightarrow> hls_state \<Rightarrow> stream_json response \<times> hls_state" where
  "post_restart e i ign s =
     (case map_of (activeStreams s) i of
        None \<Rightarrow> (Error 404 ''Stream not found'', s)
      | Some st \<Rightarrow>
          (let cleaned =
                 (if status st = ''running''
                  then (let s1 = rm_dir e i (kill (process st) s)
                        in case launch e of
                             MkdirFails m \<Rightarrow> (Some m, s1)
                           | _ \<Rightarrow> (None, s1\<lparr>dirs := mkdir_p (streamDir i) (dirs s1)\<rparr>))
                  else (None, s))
           in case cleaned of
                (Some m, s2) \<Rightarrow> (Error 500 m, s2)
              | (None, s2) \<Rightarrow>
                  (case startStream e i (url st) ign s2 of
                     (Inl m, s3) \<Rightarrow> (Error 500 m, s3)
                   | (Inr ffmpeg, s3) \<Rightarrow>
                       (let st' = st\<lparr>process := ffmpeg, status := ''running'',
                                     startTime := now_iso e, ignoreErrors := ign\<rparr>
                        in (Json ((to_json st')\<lparr>sid := i\<rparr>),
                            s3\<lparr>activeStreams := AList.update i st' (activeStreams s3)\<rparr>)))))"

text \<open>\<^verbatim>\<open>app.post('/stop/:id')\<close>; the payload \<^verbatim>\<open>{ success: true }\<close> is the unit value.\<close>

definition post_stop :: "string \<Rightarrow> hls_state \<Rightarrow> unit response \<times> hls_state" where
  "post_stop i s =
     (case map_of (activeStreams s) i of
        None \<Rightarrow> (Error 404 ''Stream not found'', s)
      | Some st \<Rightarrow>
          (let s1 = kill (process st) s
           in (Json (), s1\<lparr>activeStreams := AList.update i (st\<lparr>status := ''stopped''\<rparr>) (activeStreams s1)\<rparr>)))"

text \<open>\<^verbatim>\<open>app.delete('/stream/:id')\<close>.\<close>

definition delete_stream :: "env \<Rightarrow> string \<Rightarrow> hls_state \<Rightarrow> unit response \<times> hls_state" where
  "delete_stream e i s =
     (case map_of (activeStreams s) i of
        None \<Rightarrow> (Error 404 ''Stream not found'', s)
      | Some st \<Rightarrow>
          (let s1 = (if status st = ''running'' then kill (process st) s else s);
               s2 = s1\<lparr>activeStreams := AList.delete i (activeStreams s1)\<rparr>
           in (Json (), rm_dir e i s2)))"

text \<open>\<^verbatim>\<open>app.get('/streams')\<close>: the registry values in insertion order.\<close>

definition get_streams :: "hls_state \<Rightarrow> stream_json list" where
  "get_streams s = map (to_json \<circ> snd) (activeStreams s)"

text \<open>
  Every entry of the registry is stored under its own id: the handlers keep it so, and the
  listing reads the \<^verbatim>\<open>id\<close> field of the entries.
\<close>

definition registry_ok :: "hls_state \<Rightarrow> bool" where
  "registry_ok s = list_all (\<lambda>p. sid (snd p) = fst p) (activeStreams s)"

text \<open>
  The requests and events of the wrapper, and a run of them. A handler is one step: what
  other handlers or events could do while it waits (at an \<^verbatim>\<open>await\<close>, such as the wait of one
  second in the restart handler) is not part of the model. The \<^verbatim>\<open>'close'\<close> event of a child
  is a step of its own, which may come at any time after the child was spawned, and so is
  the \<^verbatim>\<open>'error'\<close> event of a child that could not be started.
\<close>

datatype hls_op =
    Start env start_req
  | Restart env string bool
  | Stop string
  | Delete env string
  | Close env nat
  | ChildError nat

fun hls_step :: "hls_op \<Rightarrow> hls_state \<Rightarrow> hls_state" where
  "hls_step (Start e r) s = snd (post_start e r s)"
| "hls_step (Restart e i ign) s = snd (post_restart e i ign s)"
| "hls_step (Stop i) s = snd (post_stop i s)"
| "hls_step (Delete e i) s = snd (delete_stream e i s)"
| "hls_step (Close e h) s = on_close e h s"
| "hls_step (ChildError h) s = on_error h s"

text \<open>Whether a request registers a session under the given id.\<close>

fun creates :: "string \<Rightarrow> hls_op \<Rightarrow> bool" where
  "creates i (Start e r) = (streamId_of e r = i)"
| "creates i _ = False"

fun hls_run :: "hls_op list \<Rightarrow> hls_state \<Rightarrow> hls_state" where
  "hls_run [] s = s"
| "hls_run (op # ops) s = hls_run ops (hls_step op s)"

section \<open>The backend (the API server in front of the wrapper)\<close>

subsection \<open>Data\<close>

text \<open>
  An element of the module-level array \<^verbatim>\<open>let streams = []\<close>: the polling code reads its
  \<^verbatim>\<open>id\<close> and writes its \<^verbatim>\<open>stats\<close> (the JSON body of a status response, kept as text).
\<close>

record bstream =
  bs_id :: string
  bs_stats :: "string option"

text \<open>A value of \<^verbatim>\<open>activeStreamsInfo\<close>; a field that was never assigned is \<open>None\<close>.\<close>

record info =
  info_channelName :: "string option"
  info_logo :: "string option"
  info_originalUrl :: "string option"
  info_startTime :: "string option"

text \<open>An entry of the listing that \<^verbatim>\<open>GET /api/streams\<close> returns.\<close>

record stream_details =
  d_id :: string
  d_url :: string
  d_proxyUrl :: string
  d_status :: string
  d_startTime :: "string option"
  d_ignoreErrors :: bool
  d_channelName :: string
  d_logo :: "string option"

text \<open>
  The two WebSocket messages, and what the polling code does to the outside: console
  output, the HTTP request for the status of a stream, a message sent to a client, a
  timer set with \<^verbatim>\<open>setTimeout\<close>.
\<close>

datatype message = StreamStatsMsg string string | StreamsMsg "bstream list"

datatype effect =
    ConsoleLog string
  | ConsoleError string
  | HttpGetStatus string
  | WsSend nat message
  | SetTimeout string nat

text \<open>
  The outcome of \<^verbatim>\<open>axios.get\<close>: it resolves with a status code and a body, or it rejects
  with an error that carries the response, if there was one (its \<^verbatim>\<open>status\<close> and \<^verbatim>\<open>statusText\<close>),
  and a message.
\<close>

datatype http_outcome = Resolved nat string | Rejected "(nat \<times> string) option" string

text \<open>
  The module-level state of the backend. A WebSocket client is a socket number with the
  flag \<^verbatim>\<open>readyState === WebSocket.OPEN\<close>. \<open>intervals\<close> are the repeating timers of the
  runtime that have not been cleared: the handle returned by \<^verbatim>\<open>setInterval\<close> and the stream
  id its callback polls.
\<close>

record backend =
  streams :: "bstream list"
  wss_clients :: "(nat \<times> bool) list"
  connectedClients :: "(nat \<times> bool) list"
  activePolling :: "(string \<times> nat) list"
  intervals :: "(nat \<times> string) list"
  next_timer :: nat
  activeStreamsInfo :: "(string \<times> info) list"
  streamOrder :: "string list"

definition init_backend :: backend where
  "init_backend =
     \<lparr>streams = [], wss_clients = [], connectedClients = [], activePolling = [],
      intervals = [], next_timer = 0, activeStreamsInfo = [], streamOrder = []\<rparr>"

subsection \<open>Broadcasting and polling\<close>

definition open_clients :: "(nat \<times> bool) list \<Rightarrow> nat list" where
  "open_clients cs = map fst (filter snd cs)"

definition broadcastStreamStats :: "string \<Rightarrow> string \<Rightarrow> backend \<Rightarrow> effect list" where
  "broadcastStreamStats streamId stats b =
     map (\<lambda>c. WsSend c (StreamStatsMsg streamId stats)) (open_clients (connectedClients b))"

definition broadcastStreams :: "backend \<Rightarrow> effect list" where
  "broadcastStreams b = map (\<lambda>c. WsSend c (StreamsMsg (streams b))) (open_clients (wss_clients b))"

text \<open>\<^verbatim>\<open>streams.find(s => s.id === streamId)\<close> and the assignment to the object found.\<close>

definition find_stream :: "string \<Rightarrow> bstream list \<Rightarrow> bstream option" where
  "find_stream streamId ss = find (\<lambda>s. bs_id s = streamId) ss"

fun set_stats :: "string \<Rightarrow> string \<Rightarrow> bstream list \<Rightarrow> bstream list" where
  "set_stats streamId stats [] = []"
| "set_stats streamId stats (s # ss) =
     (if bs_id s = streamId then s\<lparr>bs_stats := Some stats\<rparr> # ss
      else s # set_stats streamId stats ss)"

definition updateStreamStats :: "string \<Rightarrow> string \<Rightarrow> backend \<Rightarrow> backend \<times> effect list" where
  "updateStreamStats streamId stats b =
     (case find_stream streamId (streams b) of
        None \<Rightarrow> (b, [])
      | Some _ \<Rightarrow>
          (let b' = b\<lparr>streams := set_stats streamId stats (streams b)\<rparr>
           in (b', broadcastStreams b')))"

definition status_url :: "string \<Rightarrow> string" where
  "status_url streamId = ''http://hls-proxy:8080/stream/'' @ streamId @ ''/status''"

text \<open>
  \<^verbatim>\<open>pollStreamStatus(streamId)\<close>, given the outcome that \<^verbatim>\<open>axios.get\<close> has if it is called.
  The \<^verbatim>\<open>catch\<close> block prints only when \<^verbatim>\<open>error.response && error.response.status !== 404\<close>.
\<close>

definition pollStreamStatus :: "string \<Rightarrow> http_outcome \<Rightarrow> backend \<Rightarrow> backend \<times> effect list" where
  "pollStreamStatus streamId out b =
     (case find_stream streamId (streams b) of
        None \<Rightarrow> (b, [ConsoleLog (''Stream '' @ streamId @ '' not found, stopping polling'')])
      | Some _ \<Rightarrow>
          (let (b1, ef) =
                 (case out of
                    Resolved code body \<Rightarrow>
                      if code = 200
                      then (let (b', ef') = updateStreamStats streamId body b
                            in (b', HttpGetStatus (status_url streamId) # ef'))
                      else (b, [HttpGetStatus (status_url streamId)])
                  | Rejected resp msg \<Rightarrow>
                      (b, HttpGetStatus (status_url streamId) #
                          (case resp of
                             None \<Rightarrow> []
                           | Some (code, statusText) \<Rightarrow>
                               if code \<noteq> 404
                               then [ConsoleError (''Error polling stream '' @ streamId @ '' status: '' @ msg),
                                     ConsoleError (''Response: '' @ digits code @ '' '' @ statusText)]
                               else [])))
           in (b1, ef @ (if find_stream streamId (streams b1) \<noteq> None
                         then [SetTimeout streamId 5000] else []))))"

text \<open>\<^verbatim>\<open>startPolling\<close> and \<^verbatim>\<open>stopPolling\<close>, with \<^verbatim>\<open>setInterval\<close> and \<^verbatim>\<open>clearInterval\<close>.\<close>

definition setInterval :: "string \<Rightarrow> backend \<Rightarrow> nat \<times> backend" where
  "setInterval streamId b =
     (next_timer b,
      b\<lparr>intervals := intervals b @ [(next_timer b, streamId)], next_timer := Suc (next_timer b)\<rparr>)"

definition clearInterval :: "nat \<Rightarrow> backend \<Rightarrow> backend" where
  "clearInterval h b = b\<lparr>intervals := filter (\<lambda>t. fst t \<noteq> h) (intervals b)\<rparr>"

definition startPolling :: "string \<Rightarrow> backend \<Rightarrow> backend" where
  "startPolling streamId b =
     (if map_of (activePolling b) streamId \<noteq> None then b
      else (let (interval, b1) = setInterval streamId b
            in b1\<lparr>activePolling := AList.update streamId interval (activePolling b1)\<rparr>))"

definition stopPolling :: "string \<Rightarrow> backend \<Rightarrow> backend" where
  "stopPolling streamId b =
     (case map_of (activePolling b) streamId of
        None \<Rightarrow> b
      | Some interval \<Rightarrow>
          (let b1 = clearInterval interval b
           in b1\<lparr>activePolling := AList.delete streamId (activePolling b1)\<rparr>))"

text \<open>The number of repeating timers that poll a given stream id.\<close>

definition active_loops :: "string \<Rightarrow> backend \<Rightarrow> nat" where
  "active_loops streamId b = length (filter (\<lambda>t. snd t = streamId) (intervals b))"

subsection \<open>The display order\<close>

definition updateStreamOrder :: "string \<Rightarrow> bool \<Rightarrow> backend \<Rightarrow> backend" where
  "updateStreamOrder streamId remove b =
     (if remove then b\<lparr>streamOrder := filter (\<lambda>i. i \<noteq> streamId) (streamOrder b)\<rparr>
      else if \<not> List.member (streamOrder b) streamId
      then b\<lparr>streamOrder := streamOrder b @ [streamId]\<rparr>
      else b)"

text \<open>\<^verbatim>\<open>Array.prototype.indexOf\<close>: the first position of the element, or \<open>-1\<close>.\<close>

primrec indexOf :: "'a list \<Rightarrow> 'a \<Rightarrow> int" where
  "indexOf [] x = - 1"
| "indexOf (y # ys) x =
     (if y = x then 0 else if indexOf ys x = - 1 then - 1 else indexOf ys x + 1)"

text \<open>The comparator that \<^verbatim>\<open>GET /api/streams\<close> passes to \<^verbatim>\<open>sort\<close>.\<close>

definition compareOrder :: "string list \<Rightarrow> stream_details \<Rightarrow> stream_details \<Rightarrow> int" where
  "compareOrder order a b =
     (let indexA = indexOf order (d_id a); indexB = indexOf order (d_id b)
      in if indexA = - 1 \<and> indexB = - 1 then 0
         else if indexA = - 1 then 1
         else if indexB = - 1 then - 1
         else indexA - indexB)"

text \<open>
  The rank that \<^const>\<open>compareOrder\<close> compares by: the position in the stored order, and the
  length of the stored order for an id that is not in it. It is used in proofs only.
\<close>

definition order_key :: "string list \<Rightarrow> stream_details \<Rightarrow> int" where
  "order_key order d =
     (if indexOf order (d_id d) = - 1 then int (length order) else indexOf order (d_id d))"

text \<open>
  \<^verbatim>\<open>Array.prototype.sort(compare)\<close>. The language (since ECMAScript 2019) requires the
  sort to be stable, and for a comparator that is consistent (as \<^const>\<open>compareOrder\<close> is)
  the result is then determined: it is the one that inserting the elements from the right
  computes, every element going in front of the first element it does not compare greater
  than.
\<close>

fun insert_sorted :: "('a \<Rightarrow> 'a \<Rightarrow> int) \<Rightarrow> 'a \<Rightarrow> 'a list \<Rightarrow> 'a list" where
  "insert_sorted cmp x [] = [x]"
| "insert_sorted cmp x (y # ys) =
     (if cmp x y \<le> 0 then x # y # ys else y # insert_sorted cmp x ys)"

definition js_sort :: "('a \<Rightarrow> 'a \<Rightarrow> int) \<Rightarrow> 'a list \<Rightarrow> 'a list" where
  "js_sort cmp xs = foldr (insert_sorted cmp) xs []"

subsection \<open>The stream routes\<close>

text \<open>
  An HTTP call to the wrapper through axios: the call raises when the wrapper is not reached
  (with the message of the network error) or answers with an error status, and yields the
  JSON body otherwise.
\<close>

definition axios ::
  "env \<Rightarrow> (hls_state \<Rightarrow> 'a response \<times> hls_state) \<Rightarrow> hls_state \<Rightarrow> (string + 'a) \<times> hls_state" where
  "axios e handler w =
     (case net_error e of
        Some m \<Rightarrow> (Inl m, w)
      | None \<Rightarrow>
          (case handler w of
             (Json body, w') \<Rightarrow> (Inr body, w')
           | (Error code m, w') \<Rightarrow> (Inl (''Request failed with status code '' @ digits code), w')))"

text \<open>
  A call whose URL ends in a stream id, such as
  \<^verbatim>\<open>axios.post(`http://hls-proxy:8080/stop/${req.params.id}`)\<close>. The id is written into the
  path as it is, so the handler of the wrapper runs with the id that its router reads from
  the path, which need not be the id of the backend; when no route matches, the wrapper
  answers with an error status and no handler runs.
\<close>

definition axios_to ::
  "env \<Rightarrow> string \<Rightarrow> (string \<Rightarrow> hls_state \<Rightarrow> 'a response \<times> hls_state) \<Rightarrow> hls_state \<Rightarrow>
   (string + 'a) \<times> hls_state" where
  "axios_to e i handler w =
     (case route e i of
        Inl code \<Rightarrow> axios e (\<lambda>w'. (Error code [], w')) w
      | Inr j \<Rightarrow> axios e (handler j) w)"

text \<open>JavaScript truthiness of an optional string, and \<^verbatim>\<open>a || b\<close>.\<close>

definition truthy :: "string option \<Rightarrow> bool" where
  "truthy v = (case v of None \<Rightarrow> False | Some x \<Rightarrow> x \<noteq> [])"

definition or_else :: "string option \<Rightarrow> string option \<Rightarrow> string option" where
  "or_else a b = (if truthy a then a else b)"

text \<open>The backend together with the wrapper it talks to.\<close>

record sys =
  be :: backend
  hls :: hls_state

definition init_sys :: sys where
  "init_sys = \<lparr>be = init_backend, hls = init_hls\<rparr>"

text \<open>\<^verbatim>\<open>Object.values(cache).some(...)\<close>: the first channel with the url, provider by provider.\<close>

definition find_channel :: "channel list list \<Rightarrow> string option \<Rightarrow> channel option" where
  "find_channel c u =
     (case u of None \<Rightarrow> None | Some v \<Rightarrow> find (\<lambda>ch. ch_url ch = v) (concat c))"

text \<open>\<^verbatim>\<open>app.post('/api/streams')\<close> with the \<^verbatim>\<open>url\<close> of the request body.\<close>

definition api_post_streams :: "env \<Rightarrow> string option \<Rightarrow> sys \<Rightarrow> stream_json response \<times> sys" where
  "api_post_streams e u s =
     (let channelInfo = find_channel (cache e) u
      in case axios e (post_start e \<lparr>req_url = u, req_id = None, req_ignoreErrors = False\<rparr>) (hls s) of
           (Inl m, w) \<Rightarrow> (Error 500 m, s\<lparr>hls := w\<rparr>)
         | (Inr body, w) \<Rightarrow>
             (let b1 = startPolling (sid body) (be s);
                  b2 = (if sid body \<noteq> []
                        then updateStreamOrder (sid body) False
                               (b1\<lparr>activeStreamsInfo :=
                                     AList.update (sid body)
                                       \<lparr>info_channelName =
                                          (case channelInfo of None \<Rightarrow> Some ''Unknown Channel''
                                           | Some ch \<Rightarrow> Some (ch_name ch)),
                                        info_logo =
                                          (case channelInfo of None \<Rightarrow> None | Some ch \<Rightarrow> ch_logo ch),
                                        info_originalUrl = u,
                                        info_startTime = Some (now_iso e)\<rparr>
                                       (activeStreamsInfo b1)\<rparr>)
                        else b1)
              in (Json body, \<lparr>be = b2, hls = w\<rparr>)))"

text \<open>
  The callback of \<^verbatim>\<open>streams.map\<close> in \<^verbatim>\<open>GET /api/streams\<close>, for one stream: it may store the
  channel it finds in \<^verbatim>\<open>activeStreamsInfo\<close>, and it builds the entry of the listing.
\<close>

definition empty_info :: info where
  "empty_info =
     \<lparr>info_channelName = None, info_logo = None, info_originalUrl = None, info_startTime = None\<rparr>"

definition with_details ::
  "channel list \<Rightarrow> stream_json \<Rightarrow> (string \<times> info) list \<Rightarrow> stream_details \<times> (string \<times> info) list" where
  "with_details allChannels st infos =
     (let found = (case map_of infos (sid st) of None \<Rightarrow> empty_info | Some i \<Rightarrow> i);
          (storedInfo, infos') =
            (if \<not> truthy (info_channelName found)
             then (case find (\<lambda>ch. ch_url ch = url st) allChannels of
                     None \<Rightarrow> (found, infos)
                   | Some ch \<Rightarrow>
                       (let i = found\<lparr>info_channelName := Some (ch_name ch),
                                      info_logo := ch_logo ch,
                                      info_originalUrl := Some (ch_url ch)\<rparr>
                        in (i, AList.update (sid st) i infos)))
             else (found, infos))
      in (\<lparr>d_id = sid st,
           d_url = the (or_else (info_originalUrl storedInfo) (Some (url st))),
           d_proxyUrl = ''/stream/'' @ sid st @ ''/playlist.m3u8'',
           d_status = (if status st = [] then ''unknown'' else status st),
           d_startTime = or_else (info_startTime storedInfo) (or_else (Some (startTime st)) None),
           d_ignoreErrors = ignoreErrors st,
           d_channelName = the (or_else (info_channelName storedInfo) (Some ''Unknown Channel'')),
           d_logo = or_else (info_logo storedInfo) None\<rparr>,
          infos'))"

fun map_details ::
  "channel list \<Rightarrow> stream_json list \<Rightarrow> (string \<times> info) list \<Rightarrow> stream_details list \<times> (string \<times> info) list" where
  "map_details allChannels [] infos = ([], infos)"
| "map_details allChannels (st # sts) infos =
     (let (d, infos1) = with_details allChannels st infos;
          (ds, infos2) = map_details allChannels sts infos1
      in (d # ds, infos2))"

text \<open>\<^verbatim>\<open>app.get('/api/streams')\<close>.\<close>

definition api_get_streams :: "env \<Rightarrow> sys \<Rightarrow> stream_details list response \<times> sys" where
  "api_get_streams e s =
     (case axios e (\<lambda>w. (Json (get_streams w), w)) (hls s) of
        (Inl m, w) \<Rightarrow> (Error 500 m, s\<lparr>hls := w\<rparr>)
      | (Inr body, w) \<Rightarrow>
          (let (streamsWithDetails, infos) =
                 map_details (concat (cache e)) body (activeStreamsInfo (be s))
           in (Json (js_sort (compareOrder (streamOrder (be s))) streamsWithDetails),
               \<lparr>be = (be s)\<lparr>activeStreamsInfo := infos\<rparr>, hls = w\<rparr>)))"

text \<open>
  \<^verbatim>\<open>app.post('/api/streams/reorder')\<close>; \<open>None\<close> is a body whose \<^verbatim>\<open>streamIds\<close> is not an array.
  The ids are checked against \<^verbatim>\<open>activeStreamsInfo\<close>.
\<close>

definition api_reorder :: "string list option \<Rightarrow> backend \<Rightarrow> unit response \<times> backend" where
  "api_reorder streamIds b =
     (case streamIds of
        None \<Rightarrow> (Error 400 ''streamIds must be an array'', b)
      | Some ids \<Rightarrow>
          if \<not> list_all (\<lambda>i. map_of (activeStreamsInfo b) i \<noteq> None) ids
          then (Error 400 ''Invalid stream ID in order array'', b)
          else (Json (), b\<lparr>streamOrder := ids\<rparr>))"

text \<open>\<^verbatim>\<open>app.post('/api/streams/:id/stop')\<close>.\<close>

definition api_stop :: "env \<Rightarrow> string \<Rightarrow> sys \<Rightarrow> unit response \<times> sys" where
  "api_stop e i s =
     (case axios_to e i post_stop (hls s) of
        (Inl m, w) \<Rightarrow> (Error 500 m, s\<lparr>hls := w\<rparr>)
      | (Inr _, w) \<Rightarrow>
          (let b1 = stopPolling i (be s);
               b2 = b1\<lparr>activeStreamsInfo := AList.delete i (activeStreamsInfo b1)\<rparr>;
               b3 = updateStreamOrder i True b2
           in (Json (), \<lparr>be = b3, hls = w\<rparr>)))"

text \<open>\<^verbatim>\<open>app.delete('/api/streams/:id')\<close>. The error of the response is
  \<^verbatim>\<open>error.message || 'Failed to delete stream'\<close>.\<close>

definition delete_error :: "string \<Rightarrow> string" where
  "delete_error m = (if m = [] then ''Failed to delete stream'' else m)"

definition api_delete :: "env \<Rightarrow> string \<Rightarrow> sys \<Rightarrow> unit response \<times> sys" where
  "api_delete e i s =
     (case axios_to e i post_stop (hls s) of
        (Inl m, w) \<Rightarrow> (Error 500 (delete_error m), s\<lparr>hls := w\<rparr>)
      | (Inr _, w) \<Rightarrow>
          (case axios_to e i (delete_stream e) w of
             (Inl m, w') \<Rightarrow> (Error 500 (delete_error m), s\<lparr>hls := w'\<rparr>)
           | (Inr _, w') \<Rightarrow>
               (let b1 = (be s)\<lparr>activeStreamsInfo := AList.delete i (activeStreamsInfo (be s))\<rparr>;
                    b2 = updateStreamOrder i True b1;
                    b3 = stopPolling i b2
                in (Json (), \<lparr>be = b3, hls = w'\<rparr>))))"

text \<open>\<^verbatim>\<open>app.post('/api/streams/:id/restart')\<close>.\<close>

definition api_restart :: "env \<Rightarrow> string \<Rightarrow> bool \<Rightarrow> sys \<Rightarrow> stream_json response \<times> sys" where
  "api_restart e i ign s =
     (case axios_to e i (\<lambda>j. post_restart e j ign) (hls s) of
        (Inl m, w) \<Rightarrow> (Error 500 m, s\<lparr>hls := w\<rparr>)
      | (Inr body, w) \<Rightarrow> (Json body, s\<lparr>hls := w\<rparr>))"

subsection \<open>Runs of the whole system\<close>

text \<open>
  Everything that can happen to the two services: the stream routes of the backend, a
  repeating timer firing (\<open>Tick\<close>, with the handle of the timer), a poll scheduled by
  \<^verbatim>\<open>setTimeout\<close> firing (\<open>Timeout\<close>), WebSocket clients coming and going, and, at the wrapper
  itself, a request (its port is published like the one of the backend) or an event of a
  worker. A step returns what the polling code does to the outside.
\<close>

datatype event =
    ApiCreate env "string option"
  | ApiList env
  | ApiReorder "string list option"
  | ApiStop env string
  | ApiDelete env string
  | ApiRestart env string bool
  | Tick nat http_outcome
  | Timeout string http_outcome
  | WsConnect nat
  | WsClose nat
  | Wrapper hls_op

definition in_backend :: "(backend \<Rightarrow> backend \<times> effect list) \<Rightarrow> sys \<Rightarrow> sys \<times> effect list" where
  "in_backend f s = (let (b, ef) = f (be s) in (s\<lparr>be := b\<rparr>, ef))"

fun sys_step :: "event \<Rightarrow> sys \<Rightarrow> sys \<times> effect list" where
  "sys_step (ApiCreate e u) s = (snd (api_post_streams e u s), [])"
| "sys_step (ApiList e) s = (snd (api_get_streams e s), [])"
| "sys_step (ApiReorder ids) s = (s\<lparr>be := snd (api_reorder ids (be s))\<rparr>, [])"
| "sys_step (ApiStop e i) s = (snd (api_stop e i s), [])"
| "sys_step (ApiDelete e i) s = (snd (api_delete e i s), [])"
| "sys_step (ApiRestart e i ign) s = (snd (api_restart e i ign s), [])"
| "sys_step (Tick h out) s =
     (case map_of (intervals (be s)) h of
        None \<Rightarrow> (s, [])
      | Some streamId \<Rightarrow> in_backend (pollStreamStatus streamId out) s)"
| "sys_step (Timeout streamId out) s = in_backend (pollStreamStatus streamId out) s"
| "sys_step (WsConnect c) s =
     (s\<lparr>be := (be s)\<lparr>wss_clients := wss_clients (be s) @ [(c, True)],
                      connectedClients := connectedClients (be s) @ [(c, True)]\<rparr>\<rparr>, [])"
| "sys_step (WsClose c) s =
     (s\<lparr>be := (be s)\<lparr>wss_clients := filter (\<lambda>x. fst x \<noteq> c) (wss_clients (be s)),
                      connectedClients := filter (\<lambda>x. fst x \<noteq> c) (connectedClients (be s))\<rparr>\<rparr>, [])"
| "sys_step (Wrapper op) s = (s\<lparr>hls := hls_step op (hls s)\<rparr>, [])"

fun sys_run :: "event list \<Rightarrow> sys \<Rightarrow> sys \<times> effect list" where
  "sys_run [] s = (s, [])"
| "sys_run (ev # evs) s =
     (let (s1, ef1) = sys_step ev s; (s2, ef2) = sys_run evs s1 in (s2, ef1 @ ef2))"


subsection \<open>Invariants of the backend\<close>

text \<open>
  The bookkeeping of the polling timers is consistent: the handles of the repeating timers
  are distinct, every repeating timer is the one recorded in \<^verbatim>\<open>activePolling\<close> for the stream
  id it polls, and every handle recorded in \<^verbatim>\<open>activePolling\<close> is a repeating timer for its id.
\<close>

definition polling_ok :: "backend \<Rightarrow> bool" where
  "polling_ok b =
     (distinct (map fst (intervals b)) \<and>
      list_all (\<lambda>t. map_of (activePolling b) (snd t) = Some (fst t) \<and> fst t < next_timer b)
        (intervals b) \<and>
      list_all (\<lambda>p. (snd p, fst p) \<in> set (intervals b)) (activePolling b))"

text \<open>The statistics that are recorded for a session: the \<^verbatim>\<open>stats\<close> of its element of
  \<^verbatim>\<open>streams\<close>, the only place where the code stores any.\<close>

definition recorded_stats :: "string \<Rightarrow> backend \<Rightarrow> string option" where
  "recorded_stats i b = (case find_stream i (streams b) of None \<Rightarrow> None | Some x \<Rightarrow> bs_stats x)"

text \<open>The body of a successful listing response (empty for an error response).\<close>

definition json_body :: "'a list response \<Rightarrow> 'a list" where
  "json_body r = (case r of Json x \<Rightarrow> x | Error _ _ \<Rightarrow> [])"

section \<open>Sample inputs\<close>

text \<open>
  Concrete requests and environments, used to run the definitions. In them the router of
  the wrapper reads an id from a path like this: the id ends before the first \<^verbatim>\<open>?\<close> or \<^verbatim>\<open>#\<close>,
  and no route matches when what is left is empty or has a slash.
\<close>

definition path_param :: "string \<Rightarrow> nat + string" where
  "path_param i =
     (let p = takeWhile (\<lambda>c. c \<noteq> CHR ''?'' \<and> c \<noteq> CHR ''#'') i
      in if p = [] \<or> CHR ''/'' \<in> set p then Inl 404 else Inr p)"

definition env_ok :: env where
  "env_ok =
     \<lparr>now_ms = ''1700000000000'', now_iso = ''2023-11-14T22:13:20.000Z'',
      launch = Launched, rm_ok = True, net_error = None, route = path_param, cache = []\<rparr>"

definition env_later :: env where
  "env_later = env_ok\<lparr>now_ms := ''1700000060000'', now_iso := ''2023-11-14T22:14:20.000Z''\<rparr>"

definition env_spawn_fails :: env where
  "env_spawn_fails = env_later\<lparr>launch := SpawnThrows ''spawn ENOMEM''\<rparr>"

definition env_no_ffmpeg :: env where
  "env_no_ffmpeg = env_ok\<lparr>launch := SpawnEmitsError\<rparr>"

definition req_A :: start_req where
  "req_A = \<lparr>req_url = Some ''http://src/1'', req_id = Some ''A'', req_ignoreErrors = False\<rparr>"

definition req_B :: start_req where
  "req_B = \<lparr>req_url = Some ''http://src/2'', req_id = Some ''B'', req_ignoreErrors = False\<rparr>"

definition env_last :: env where
  "env_last = env_ok\<lparr>now_ms := ''1700000120000'', now_iso := ''2023-11-14T22:15:20.000Z''\<rparr>"

text \<open>The same moment, with a channel cache that has a channel for the first source.\<close>

definition env_cached :: env where
  "env_cached =
     env_last\<lparr>cache := [[\<lparr>ch_name = ''News'', ch_logo = None, ch_url = ''http://src/1''\<rparr>]]\<rparr>"

text \<open>Two sessions created through the backend one minute apart, and the same system after
  a third creation and a reorder request that lists the third and the first session.\<close>

definition sample_stream :: "string \<Rightarrow> string \<Rightarrow> string \<Rightarrow> string \<Rightarrow> nat \<Rightarrow> stream" where
  "sample_stream i u t st p =
     \<lparr>sid = i, url = u, proxyUrl = ''/stream/'' @ i @ ''/playlist.m3u8'', status = st,
      startTime = t, ignoreErrors = False, process = p\<rparr>"

definition sample_info :: "string \<Rightarrow> string \<Rightarrow> info" where
  "sample_info u t =
     \<lparr>info_channelName = Some ''Unknown Channel'', info_logo = None,
      info_originalUrl = Some u, info_startTime = Some t\<rparr>"

definition two_sessions :: sys where
  "two_sessions =
     \<lparr>be = init_backend
              \<lparr>activePolling := [(''1700000000000'', 0), (''1700000060000'', 1)],
               intervals := [(0, ''1700000000000''), (1, ''1700000060000'')],
               next_timer := 2,
               activeStreamsInfo :=
                 [(''1700000000000'', sample_info ''http://src/1'' ''2023-11-14T22:13:20.000Z''),
                  (''1700000060000'', sample_info ''http://src/2'' ''2023-11-14T22:14:20.000Z'')],
               streamOrder := [''1700000000000'', ''1700000060000'']\<rparr>,
      hls = \<lparr>activeStreams =
                [(''1700000000000'',
                  sample_stream ''1700000000000'' ''http://src/1'' ''2023-11-14T22:13:20.000Z'' ''running'' 0),
                 (''1700000060000'',
                  sample_stream ''1700000060000'' ''http://src/2'' ''2023-11-14T22:14:20.000Z'' ''running'' 1)],
             dirs = mkdir_p (streamDir ''1700000060000'')
                      (mkdir_p (streamDir ''1700000000000'') (mkdir_p STREAMS_DIR {})),
             procs = [0 \<mapsto> ''1700000000000'', 1 \<mapsto> ''1700000060000''],
             signalled = {},
             unstarted = {},
             spawned = [(0, ffmpegArgs ''1700000000000'' ''http://src/1'' False),
                        (1, ffmpegArgs ''1700000060000'' ''http://src/2'' False)],
             next_pid = 2\<rparr>\<rparr>"

definition three_sessions :: sys where
  "three_sessions =
     \<lparr>be = init_backend
              \<lparr>activePolling := [(''1700000000000'', 0), (''1700000060000'', 1), (''1700000120000'', 2)],
               intervals := [(0, ''1700000000000''), (1, ''1700000060000''), (2, ''1700000120000'')],
               next_timer := 3,
               activeStreamsInfo :=
                 [(''1700000000000'', sample_info ''http://src/1'' ''2023-11-14T22:13:20.000Z''),
                  (''1700000060000'', sample_info ''http://src/2'' ''2023-11-14T22:14:20.000Z''),
                  (''1700000120000'', sample_info ''http://src/3'' ''2023-11-14T22:15:20.000Z'')],
               streamOrder := [''1700000120000'', ''1700000000000'']\<rparr>,
      hls = \<lparr>activeStreams =
                [(''1700000000000'',
                  sample_stream ''1700000000000'' ''http://src/1'' ''2023-11-14T22:13:20.000Z'' ''running'' 0),
                 (''1700000060000'',
                  sample_stream ''1700000060000'' ''http://src/2'' ''2023-11-14T22:14:20.000Z'' ''running'' 1),
                 (''1700000120000'',
                  sample_stream ''1700000120000'' ''http://src/3'' ''2023-11-14T22:15:20.000Z'' ''running'' 2)],
             dirs = mkdir_p (streamDir ''1700000120000'')
                      (mkdir_p (streamDir ''1700000060000'')
                         (mkdir_p (streamDir ''1700000000000'') (mkdir_p STREAMS_DIR {}))),
             procs = [0 \<mapsto> ''1700000000000'', 1 \<mapsto> ''1700000060000'', 2 \<mapsto> ''1700000120000''],
             signalled = {},
             unstarted = {},
             spawned = [(0, ffmpegArgs ''1700000000000'' ''http://src/1'' False),
                        (1, ffmpegArgs ''1700000060000'' ''http://src/2'' False),
                        (2, ffmpegArgs ''1700000120000'' ''http://src/3'' False)],
             next_pid = 3\<rparr>\<rparr>"

text \<open>A backend whose \<^verbatim>\<open>streams\<close> array holds session \<open>A\<close>, to run the polling code past its
  first guard.\<close>

definition polled_backend :: backend where
  "polled_backend = init_backend\<lparr>streams := [\<lparr>bs_id = ''A'', bs_stats = None\<rparr>]\<rparr>"

section \<open>Properties of the worker service\<close>

lemmas hls_eval = post_start_def post_restart_def post_stop_def delete_stream_def on_close_def
  rm_dir_def set_status_def startStream_def streamId_of_def kill_def init_hls_def to_json_def
  get_streams_def on_error_def Let_def

lemmas sample_eval = env_ok_def env_later_def env_spawn_fails_def env_no_ffmpeg_def req_A_def
  req_B_def

subsection \<open>Helpers\<close>

lemma in_mkdir_p [simp]: "q \<in> mkdir_p p ds \<longleftrightarrow> q \<in> ds \<or> prefix q p"
  by (simp add: mkdir_p_def in_set_prefixes)

lemma in_rm_rf [simp]: "q \<in> rm_rf p ds \<longleftrightarrow> q \<in> ds \<and> \<not> prefix p q"
  by (simp add: rm_rf_def)

text \<open>
  The directory of a plain id is the one of that name below \<^verbatim>\<open>STREAMS_DIR\<close>. Ids with slashes
  or dots may name the directory of another id, or a directory that is not below
  \<^verbatim>\<open>STREAMS_DIR\<close>.
\<close>

lemma streamDir_plain:
  "streamDir ''A'' = [''app'', ''data'', ''streams'', ''A''] \<and>
   path_string (streamDir ''A'' @ [''playlist.m3u8'']) = ''/app/data/streams/A/playlist.m3u8''"
  by (simp add: streamDir_def STREAMS_DIR_def normalize_path_def path_string_def)

lemma streamDir_shared:
  "streamDir ''B/../A'' = streamDir ''A'' \<and> streamDir ''./A/'' = streamDir ''A'' \<and>
   streamDir ''..'' = [''app'', ''data'']"
  by (simp add: streamDir_def STREAMS_DIR_def normalize_path_def)

lemma activeStreams_kill [simp]: "activeStreams (kill h s) = activeStreams s"
  by (simp add: kill_def)

lemma dirs_kill [simp]: "dirs (kill h s) = dirs s"
  by (simp add: kill_def)

lemma kill_activeStreams_update:
  "kill h (s\<lparr>activeStreams := m\<rparr>) = (kill h s)\<lparr>activeStreams := m\<rparr>"
  by (simp add: kill_def)

lemma kill_kill [simp]: "kill h (kill h s) = kill h s"
  by (simp add: kill_def)

lemma activeStreams_rm_dir [simp]: "activeStreams (rm_dir e i s) = activeStreams s"
  by (simp add: rm_dir_def)

lemma activeStreams_startStream [simp]:
  "activeStreams (snd (startStream e i u ign s)) = activeStreams s"
  by (simp add: startStream_def split: launch.splits)

lemma startStream_fails:
  "launch_error (launch e) = Some m \<Longrightarrow> fst (startStream e i u ign s) = Inl m"
  by (cases "launch e") (simp_all add: startStream_def)

lemma startStream_returns:
  "launch_error (launch e) = None \<Longrightarrow> fst (startStream e i u ign s) = Inr (next_pid s)"
  by (cases "launch e") (simp_all add: startStream_def)

lemma post_stop_known:
  "map_of (activeStreams s) i = Some st \<Longrightarrow>
   post_stop i s =
     (Json (), (kill (process st) s)\<lparr>activeStreams :=
                 AList.update i (st\<lparr>status := ''stopped''\<rparr>) (activeStreams s)\<rparr>)"
  by (simp add: post_stop_def Let_def)

lemma post_stop_stopped:
  assumes "map_of (activeStreams s) i = Some st" "status st = ''stopped''"
    and "procs s (process st) = None \<or> process st \<in> signalled s"
  shows "post_stop i s = (Json (), s)"
proof -
  have "st\<lparr>status := ''stopped''\<rparr> = st"
    using assms(2) by (cases st) simp
  moreover have "kill (process st) s = s"
    using assms(3) by (auto simp: kill_def insert_absorb)
  ultimately show ?thesis
    using assms(1) by (simp add: post_stop_known update_triv)
qed

subsection \<open>A creation whose worker does not start\<close>

text \<open>
  When \<^verbatim>\<open>fs.mkdir\<close> or \<^verbatim>\<open>spawn\<close> raises, the \<^verbatim>\<open>catch\<close> block of the start handler answers with
  status 500 and the message of the exception, and the registry is what it was before the
  request.
\<close>

lemma raised_start_keeps_registry:
  assumes "launch_error (launch e) = Some m" and "req_url r = Some u" and "u \<noteq> []"
  shows "fst (post_start e r s) = Error 500 m \<and>
         activeStreams (snd (post_start e r s)) = activeStreams s"
proof -
  define s1 where "s1 = (case map_of (activeStreams s) (streamId_of e r) of
                       None \<Rightarrow> s
                     | Some existingStream \<Rightarrow>
                         if status existingStream = ''running''
                         then kill (process existingStream) s else s)"
  have reg: "activeStreams s1 = activeStreams s"
    by (simp add: s1_def split: option.splits)
  obtain res s2 where eq: "startStream e (streamId_of e r) u (req_ignoreErrors r) s1 = (res, s2)"
    by (cases "startStream e (streamId_of e r) u (req_ignoreErrors r) s1")
  have res: "res = Inl m"
    using startStream_fails [OF assms(1), of "streamId_of e r" u "req_ignoreErrors r" s1] eq by simp
  have "activeStreams s2 = activeStreams s1"
    using activeStreams_startStream [of e "streamId_of e r" u "req_ignoreErrors r" s1] eq by simp
  with reg have "activeStreams s2 = activeStreams s" by simp
  moreover have "post_start e r s = (Error 500 m, s2)"
    using assms(2,3) eq res by (simp add: post_start_def s1_def [symmetric] Let_def)
  ultimately show ?thesis by simp
qed

text \<open>
  So an entry that was \<^verbatim>\<open>'running'\<close> stays so, although the handler has sent a signal to its
  worker (\<^verbatim>\<open>// If stream exists, stop it first\<close>); the stop handler, which sends the same
  signal, sets the status to \<^verbatim>\<open>'stopped'\<close>. Session \<open>A\<close> is started, then a second start request
  for \<open>A\<close> finds that \<^verbatim>\<open>spawn\<close> raises.
\<close>

lemma raised_start_reused_id:
  "fst (post_start env_spawn_fails req_A (hls_run [Start env_ok req_A] init_hls))
     = Error 500 ''spawn ENOMEM'' \<and>
   map_option status
     (map_of (activeStreams (hls_run [Start env_ok req_A, Start env_spawn_fails req_A] init_hls)) ''A'')
     = Some ''running'' \<and>
   0 \<in> signalled (hls_run [Start env_ok req_A, Start env_spawn_fails req_A] init_hls)"
  by (simp add: hls_eval sample_eval)

text \<open>
  C1 does not hold of the code. When ffmpeg cannot be started because the binary is
  missing, \<^verbatim>\<open>spawn\<close> does not raise: it returns a child, and the failure comes later as the
  \<^verbatim>\<open>'error'\<close> event of that child. The \<^verbatim>\<open>try\<close> block of the start handler therefore runs to its
  end: for every request with a URL and in every state, the answer is the success
  response with status \<^verbatim>\<open>'running'\<close>, the session is registered as \<^verbatim>\<open>'running'\<close> with the child
  that never started, and no worker process has been added. Nothing sets the entry to
  another status afterwards: \<^verbatim>\<open>startStream\<close> registers no \<^verbatim>\<open>'error'\<close> listener, so the event
  ends the wrapper, and the registry is lost with it.
\<close>

theorem unstarted_worker_registered_running:
  assumes "launch e = SpawnEmitsError" and "req_url r = Some u" and "u \<noteq> []"
  shows "fst (post_start e r s)
           = Json \<lparr>sid = streamId_of e r, url = u,
                   proxyUrl = ''/stream/'' @ streamId_of e r @ ''/playlist.m3u8'',
                   status = ''running'', startTime = now_iso e,
                   ignoreErrors = req_ignoreErrors r\<rparr> \<and>
         map_of (activeStreams (snd (post_start e r s))) (streamId_of e r)
           = Some \<lparr>sid = streamId_of e r, url = u,
                   proxyUrl = ''/stream/'' @ streamId_of e r @ ''/playlist.m3u8'',
                   status = ''running'', startTime = now_iso e,
                   ignoreErrors = req_ignoreErrors r, process = next_pid s\<rparr> \<and>
         procs (snd (post_start e r s)) = procs s \<and>
         next_pid s \<in> unstarted (snd (post_start e r s)) \<and>
         activeStreams (hls_step (ChildError (next_pid s)) (snd (post_start e r s))) = []"
proof -
  define s1 where "s1 = (case map_of (activeStreams s) (streamId_of e r) of
                       None \<Rightarrow> s
                     | Some existingStream \<Rightarrow>
                         if status existingStream = ''running''
                         then kill (process existingStream) s else s)"
  have s1: "procs s1 = procs s" "next_pid s1 = next_pid s"
    by (simp_all add: s1_def kill_def split: option.splits)
  show ?thesis
    using assms s1
    by (simp add: post_start_def s1_def [symmetric] startStream_def to_json_def on_error_def
        init_hls_def update_conv' Let_def)
qed

theorem unstarted_worker_registered_running_witness:
  "launch env_no_ffmpeg = SpawnEmitsError \<and>
   req_url req_A = Some ''http://src/1'' \<and>
   fst (post_start env_no_ffmpeg req_A init_hls)
     = Json \<lparr>sid = ''A'', url = ''http://src/1'', proxyUrl = ''/stream/A/playlist.m3u8'',
             status = ''running'', startTime = ''2023-11-14T22:13:20.000Z'',
             ignoreErrors = False\<rparr> \<and>
   map_option status
     (map_of (activeStreams (hls_run [Start env_no_ffmpeg req_A] init_hls)) ''A'') = Some ''running'' \<and>
   procs (hls_run [Start env_no_ffmpeg req_A] init_hls) = Map.empty \<and>
   activeStreams (hls_run [Start env_no_ffmpeg req_A, ChildError 0] init_hls) = []"
  using unstarted_worker_registered_running [of env_no_ffmpeg req_A "''http://src/1''" init_hls]
  by (simp add: hls_eval sample_eval)

subsection \<open>Stopping a session\<close>

text \<open>
  C5, as the specification states it, does not hold: the working area does not stay on
  disk. Stopping the running session \<open>A\<close> succeeds and sends a signal to its worker (child
  0); the directory is still there when the handler returns. When the exit of that worker
  is observed, the \<^verbatim>\<open>'close'\<close> callback registered by \<^verbatim>\<open>startStream\<close> removes the directory
  (\<^verbatim>\<open>// Clean up stream directory\<close>).
\<close>

theorem stop_counterexample:
  "fst (post_stop ''A'' (hls_run [Start env_ok req_A] init_hls)) = Json () \<and>
   streamDir ''A'' \<in> dirs (hls_run [Start env_ok req_A, Stop ''A''] init_hls) \<and>
   0 \<in> signalled (hls_run [Start env_ok req_A, Stop ''A''] init_hls) \<and>
   streamDir ''A'' \<notin> dirs (hls_run [Start env_ok req_A, Stop ''A'', Close env_later 0] init_hls)"
  by (simp add: hls_eval sample_eval)

text \<open>
  C5 (amended): stop on a registered session answers with success and replaces the entry
  by the same entry with status \<^verbatim>\<open>'stopped'\<close>, in place; no other entry and no other field
  changes, and the handler itself leaves the stream directories alone. A second stop is a
  no-op that answers with success again, and so is the stop of any session that is
  \<^verbatim>\<open>'stopped'\<close> and whose worker has exited or has been signalled. The working area is not
  kept, though: when the
  \<^verbatim>\<open>'close'\<close> event of the session's worker arrives (and \<^verbatim>\<open>fs.rm\<close> does not fail), the stream
  directory is gone, while the entry is still registered with status \<^verbatim>\<open>'stopped'\<close>.
\<close>

theorem stop_marks_stopped:
  assumes "map_of (activeStreams s) i = Some st"
  shows "fst (post_stop i s) = Json () \<and>
         activeStreams (snd (post_stop i s))
           = AList.update i (st\<lparr>status := ''stopped''\<rparr>) (activeStreams s) \<and>
         dirs (snd (post_stop i s)) = dirs s \<and>
         post_stop i (snd (post_stop i s)) = (Json (), snd (post_stop i s)) \<and>
         (status st = ''stopped'' \<and> (procs s (process st) = None \<or> process st \<in> signalled s) \<longrightarrow>
            post_stop i s = (Json (), s)) \<and>
         (procs s (process st) = Some i \<and> rm_ok e \<longrightarrow>
            streamDir i \<notin> dirs (on_close e (process st) (snd (post_stop i s))) \<and>
            map_of (activeStreams (on_close e (process st) (snd (post_stop i s)))) i
              = Some (st\<lparr>status := ''stopped''\<rparr>))"
proof -
  let ?st = "st\<lparr>status := ''stopped''\<rparr>"
  let ?s' = "(kill (process st) s)\<lparr>activeStreams := AList.update i ?st (activeStreams s)\<rparr>"
  have eq: "post_stop i s = (Json (), ?s')"
    using assms by (rule post_stop_known)
  have look: "map_of (activeStreams ?s') i = Some ?st"
    by (simp add: update_conv')
  have again: "post_stop i ?s' = (Json (), ?s')"
    by (simp add: post_stop_known [OF look] kill_activeStreams_update)
  have closed: "streamDir i \<notin> dirs (on_close e (process st) ?s') \<and>
      map_of (activeStreams (on_close e (process st) ?s')) i = Some ?st"
    if "procs s (process st) = Some i" "rm_ok e"
    using that by (simp add: on_close_def kill_def rm_dir_def set_status_def update_conv')
  have stopped: "post_stop i s = (Json (), s)"
    if "status st = ''stopped''" "procs s (process st) = None \<or> process st \<in> signalled s"
    using assms that by (rule post_stop_stopped)
  have "fst (post_stop i s) = Json () \<and>
        activeStreams (snd (post_stop i s)) = AList.update i ?st (activeStreams s) \<and>
        dirs (snd (post_stop i s)) = dirs s \<and>
        post_stop i (snd (post_stop i s)) = (Json (), snd (post_stop i s))"
    using eq again by simp
  moreover have "snd (post_stop i s) = ?s'"
    using eq by simp
  ultimately show ?thesis
    using closed stopped by (simp only: simp_thms) blast
qed

theorem stop_marks_stopped_witness:
  "map_of (activeStreams (hls_run [Start env_ok req_A, Start env_ok req_B] init_hls)) ''A''
     = Some \<lparr>sid = ''A'', url = ''http://src/1'', proxyUrl = ''/stream/A/playlist.m3u8'',
             status = ''running'', startTime = ''2023-11-14T22:13:20.000Z'',
             ignoreErrors = False, process = 0\<rparr> \<and>
   map_option status
     (map_of (activeStreams (hls_run [Start env_ok req_A, Start env_ok req_B, Stop ''A''] init_hls)) ''A'')
     = Some ''stopped'' \<and>
   hls_run [Start env_ok req_A, Start env_ok req_B, Stop ''A'', Stop ''A''] init_hls
     = hls_run [Start env_ok req_A, Start env_ok req_B, Stop ''A''] init_hls \<and>
   streamDir ''A'' \<notin> dirs (hls_run [Start env_ok req_A, Start env_ok req_B, Stop ''A'', Close env_later 0] init_hls)"
proof -
  let ?s = "hls_run [Start env_ok req_A, Start env_ok req_B] init_hls"
  let ?st = "\<lparr>sid = ''A'', url = ''http://src/1'', proxyUrl = ''/stream/A/playlist.m3u8'',
             status = ''running'', startTime = ''2023-11-14T22:13:20.000Z'',
             ignoreErrors = False, process = 0\<rparr>"
  have known: "map_of (activeStreams ?s) ''A'' = Some ?st"
    by (simp add: hls_eval sample_eval)
  have pre: "procs ?s (process ?st) = Some ''A'' \<and> rm_ok env_later"
    by (simp add: hls_eval sample_eval)
  show ?thesis
    using stop_marks_stopped [OF known, of env_later] known pre
    by (simp add: update_conv')
qed

subsection \<open>Deleting a session\<close>

lemma delete_stream_unknown:
  "map_of (activeStreams s) i = None \<Longrightarrow> delete_stream e i s = (Error 404 ''Stream not found'', s)"
  by (simp add: delete_stream_def)

lemma listing_ids: "map sid (get_streams s) = map (sid \<circ> snd) (activeStreams s)"
  by (simp add: get_streams_def to_json_def)

lemma registry_ok_ids:
  "registry_ok s \<Longrightarrow> map sid (get_streams s) = map fst (activeStreams s)"
  unfolding listing_ids registry_ok_def
  by (induction "activeStreams s" arbitrary: s) (auto simp: list_all_iff)

lemma list_all_update:
  "list_all P m \<Longrightarrow> P (k, v) \<Longrightarrow> list_all P (AList.update k v m)"
  by (induction m) auto

lemma list_all_delete:
  "list_all P m \<Longrightarrow> list_all P (AList.delete k m)"
  by (induction m) auto

lemma map_of_list_all:
  "list_all P m \<Longrightarrow> map_of m k = Some v \<Longrightarrow> P (k, v)"
  by (induction m) (auto split: if_splits)

lemma registry_ok_step: "registry_ok s \<Longrightarrow> registry_ok (hls_step op s)"
proof (cases op)
  case (Start e r)
  assume "registry_ok s"
  then show ?thesis
    unfolding Start registry_ok_def
    by (auto simp: post_start_def startStream_def Let_def list_all_update split: option.splits launch.splits)
next
  case (Restart e i ign)
  assume ok: "registry_ok s"
  show ?thesis
  proof (cases "map_of (activeStreams s) i")
    case None
    with ok show ?thesis by (simp add: Restart post_restart_def)
  next
    case (Some st)
    with ok have "sid st = i"
      unfolding registry_ok_def by (auto dest: map_of_list_all)
    with ok Some show ?thesis
      unfolding Restart registry_ok_def
      by (auto simp: post_restart_def startStream_def Let_def list_all_update split: option.splits launch.splits)
  qed
next
  case (Stop i)
  assume ok: "registry_ok s"
  show ?thesis
  proof (cases "map_of (activeStreams s) i")
    case None
    with ok show ?thesis by (simp add: Stop post_stop_def)
  next
    case (Some st)
    with ok have "sid st = i"
      unfolding registry_ok_def by (auto dest: map_of_list_all)
    with ok Some show ?thesis
      unfolding Stop registry_ok_def
      by (auto simp: post_stop_def Let_def list_all_update)
  qed
next
  case (Delete e i)
  assume "registry_ok s"
  then show ?thesis
    unfolding Delete registry_ok_def
    by (auto simp: delete_stream_def Let_def list_all_delete split: option.splits)
next
  case (Close e h)
  assume ok: "registry_ok s"
  show ?thesis
  proof (cases "procs s h")
    case None
    with ok show ?thesis by (simp add: Close on_close_def)
  next
    case (Some i)
    show ?thesis
    proof (cases "map_of (activeStreams s) i")
      case None
      with ok Some show ?thesis by (simp add: Close on_close_def registry_ok_def)
    next
      case st: (Some st)
      with ok have "sid st = i"
        unfolding registry_ok_def by (auto dest: map_of_list_all)
      with ok Some st show ?thesis
        unfolding Close registry_ok_def
        by (auto simp: on_close_def set_status_def Let_def list_all_update)
    qed
  qed
next
  case (ChildError h)
  assume "registry_ok s"
  then show ?thesis
    by (simp add: ChildError on_error_def registry_ok_def init_hls_def)
qed

lemma registry_ok_run: "registry_ok s \<Longrightarrow> registry_ok (hls_run ops s)"
  by (induction ops arbitrary: s) (simp_all add: registry_ok_step)

lemma registry_ok_init: "registry_ok init_hls"
  by (simp add: registry_ok_def init_hls_def)

lemma absent_step:
  "map_of (activeStreams s) i = None \<Longrightarrow> \<not> creates i op \<Longrightarrow>
   map_of (activeStreams (hls_step op s)) i = None"
proof (cases op)
  case (Start e r)
  assume "map_of (activeStreams s) i = None" "\<not> creates i op"
  then show ?thesis
    unfolding Start
    by (auto simp: post_start_def startStream_def Let_def update_conv' split: option.splits launch.splits)
next
  case (Restart e j ign)
  assume "map_of (activeStreams s) i = None"
  then show ?thesis
    unfolding Restart
    by (auto simp: post_restart_def startStream_def Let_def update_conv' split: option.splits launch.splits)
next
  case (Stop j)
  assume "map_of (activeStreams s) i = None"
  then show ?thesis
    unfolding Stop
    by (auto simp: post_stop_def Let_def update_conv' split: option.splits)
next
  case (Delete e j)
  assume "map_of (activeStreams s) i = None"
  then show ?thesis
    unfolding Delete
    by (auto simp: delete_stream_def Let_def delete_conv' split: option.splits)
next
  case (Close e h)
  assume "map_of (activeStreams s) i = None"
  then show ?thesis
    unfolding Close
    by (auto simp: on_close_def set_status_def Let_def update_conv' split: option.splits)
next
  case (ChildError h)
  assume "map_of (activeStreams s) i = None"
  then show ?thesis
    by (simp add: ChildError on_error_def init_hls_def)
qed

lemma absent_run:
  "map_of (activeStreams s) i = None \<Longrightarrow> list_all (\<lambda>op. \<not> creates i op) ops \<Longrightarrow>
   map_of (activeStreams (hls_run ops s)) i = None"
  by (induction ops arbitrary: s) (simp_all add: absent_step)

lemma absent_not_listed:
  "registry_ok s \<Longrightarrow> map_of (activeStreams s) i = None \<Longrightarrow> i \<notin> set (map sid (get_streams s))"
  by (simp add: registry_ok_ids map_of_eq_None_iff)


text \<open>
  C6: in every state the wrapper can reach, deleting an id that is not registered answers
  404 (\<^verbatim>\<open>Stream not found\<close>) and changes nothing. Deleting a registered id answers with
  success, removes exactly that entry from the registry, and removes its stream directory
  with all that is below it (when \<^verbatim>\<open>fs.rm\<close> does not fail; the handler logs a failure and
  goes on). After that the id is in no listing, whatever requests and events of the
  workers follow, as long as none of them is a start request that registers a session
  under this id again.
\<close>

theorem delete_removes_session:
  assumes "s = hls_run pre init_hls"
  shows "(map_of (activeStreams s) i = None \<longrightarrow>
            delete_stream e i s = (Error 404 ''Stream not found'', s)) \<and>
         (map_of (activeStreams s) i \<noteq> None \<longrightarrow>
            fst (delete_stream e i s) = Json () \<and>
            activeStreams (snd (delete_stream e i s)) = AList.delete i (activeStreams s) \<and>
            (rm_ok e \<longrightarrow> streamDir i \<notin> dirs (snd (delete_stream e i s)) \<and>
                       dirs (snd (delete_stream e i s)) = rm_rf (streamDir i) (dirs s)) \<and>
            (list_all (\<lambda>op. \<not> creates i op) ops \<longrightarrow>
               i \<notin> set (map sid (get_streams (hls_run ops (snd (delete_stream e i s)))))))"
proof -
  let ?s' = "snd (delete_stream e i s)"
  have ok: "registry_ok s"
    using assms registry_ok_init by (simp add: registry_ok_run)
  have unknown: "delete_stream e i s = (Error 404 ''Stream not found'', s)"
    if "map_of (activeStreams s) i = None"
    using that by (rule delete_stream_unknown)
  have known: "fst (delete_stream e i s) = Json () \<and>
      activeStreams ?s' = AList.delete i (activeStreams s) \<and>
      (rm_ok e \<longrightarrow> streamDir i \<notin> dirs ?s' \<and> dirs ?s' = rm_rf (streamDir i) (dirs s))"
    if "map_of (activeStreams s) i \<noteq> None"
    using that by (cases "status (the (map_of (activeStreams s) i)) = ''running''")
      (auto simp: delete_stream_def Let_def rm_dir_def)
  have later: "i \<notin> set (map sid (get_streams (hls_run ops ?s')))"
    if "map_of (activeStreams s) i \<noteq> None" and ops: "list_all (\<lambda>op. \<not> creates i op) ops"
  proof -
    have "?s' = hls_step (Delete e i) s" by simp
    then have ok': "registry_ok ?s'"
      using ok registry_ok_step by metis
    have "map_of (activeStreams ?s') i = None"
      using known [OF that(1)] by (simp add: delete_conv')
    then have "map_of (activeStreams (hls_run ops ?s')) i = None"
      using ops by (rule absent_run)
    moreover have "registry_ok (hls_run ops ?s')"
      using ok' by (rule registry_ok_run)
    ultimately show ?thesis
      by (rule absent_not_listed [rotated])
  qed
  show ?thesis
    using unknown known later by blast
qed

theorem delete_removes_session_witness:
  "delete_stream env_later ''B'' (hls_run [Start env_ok req_A] init_hls)
     = (Error 404 ''Stream not found'', hls_run [Start env_ok req_A] init_hls) \<and>
   fst (delete_stream env_later ''A'' (hls_run [Start env_ok req_A] init_hls)) = Json () \<and>
   streamDir ''A'' \<notin> dirs (snd (delete_stream env_later ''A'' (hls_run [Start env_ok req_A] init_hls))) \<and>
   ''A'' \<notin> set (map sid (get_streams (hls_run [Close env_later 0, Start env_later req_B, Stop ''A'']
                    (snd (delete_stream env_later ''A'' (hls_run [Start env_ok req_A] init_hls))))))"
proof -
  let ?s = "hls_run [Start env_ok req_A] init_hls"
  have a: "map_of (activeStreams ?s) ''A'' \<noteq> None" and b: "map_of (activeStreams ?s) ''B'' = None"
    by (simp_all add: hls_eval sample_eval)
  have r: "rm_ok env_later"
    by (simp add: sample_eval)
  have ops: "list_all (\<lambda>op. \<not> creates ''A'' op) [Close env_later 0, Start env_later req_B, Stop ''A'']"
    by (simp add: streamId_of_def sample_eval)
  show ?thesis
    using delete_removes_session [OF refl, of "[Start env_ok req_A]" "''B''" env_later "[]"]
      delete_removes_session [OF refl, of "[Start env_ok req_A]" "''A''" env_later
        "[Close env_later 0, Start env_later req_B, Stop ''A'']"] a b r ops
    by simp
qed

subsection \<open>Restarting a session\<close>



section \<open>Properties of the backend\<close>

lemmas be_eval = api_post_streams_def api_get_streams_def api_reorder_def api_stop_def
  api_delete_def api_restart_def axios_def axios_to_def delete_error_def path_param_def
  startPolling_def stopPolling_def setInterval_def clearInterval_def updateStreamOrder_def
  init_backend_def init_sys_def in_backend_def find_channel_def active_loops_def

subsection \<open>Polling loops\<close>

lemma one_loop:
  "distinct (map fst ts) \<Longrightarrow> list_all (\<lambda>t. f (snd t) = Some (fst t)) ts \<Longrightarrow>
   length (filter (\<lambda>t. snd t = i) ts) \<le> 1"
proof (induction ts)
  case Nil
  then show ?case by simp
next
  case (Cons t ts)
  show ?case
  proof (cases "snd t = i")
    case False
    with Cons show ?thesis by simp
  next
    case True
    have "filter (\<lambda>t. snd t = i) ts = []"
    proof (rule ccontr)
      assume "filter (\<lambda>t. snd t = i) ts \<noteq> []"
      then obtain u where u: "u \<in> set ts" "snd u = i"
        by (auto simp: filter_empty_conv)
      with Cons.prems True have "fst u = fst t"
        by (auto simp: list_all_iff)
      moreover have "fst t \<notin> fst ` set ts"
        using Cons.prems by simp
      ultimately show False using u by (simp add: image_iff) metis
    qed
    with True show ?thesis by simp
  qed
qed

lemma set_alist_delete: "set (AList.delete k al) = {p \<in> set al. fst p \<noteq> k}"
  by (auto simp: AList.delete_eq)

lemma set_alist_update: "set (AList.update k v al) \<subseteq> insert (k, v) (set al)"
  by (induction al) auto

lemma polling_ok_loops: "polling_ok b \<Longrightarrow> active_loops i b \<le> 1"
  unfolding polling_ok_def active_loops_def
  by (rule one_loop [where f = "map_of (activePolling b)"]) (auto simp: list_all_iff)

lemma polling_ok_handle:
  assumes "polling_ok b" "map_of (activePolling b) i = Some h" "map_of (activePolling b) j = Some h"
  shows "j = i"
proof -
  have "(h, i) \<in> set (intervals b)" "(h, j) \<in> set (intervals b)"
    using assms by (auto simp: polling_ok_def list_all_iff dest!: map_of_SomeD)
  moreover have "distinct (map fst (intervals b))"
    using assms by (simp add: polling_ok_def)
  ultimately show ?thesis
    by (metis eq_key_imp_eq_value)
qed

lemma polling_ok_init: "polling_ok init_backend"
  by (simp add: polling_ok_def init_backend_def)

lemma startPolling_noop:
  "map_of (activePolling b) i \<noteq> None \<Longrightarrow> startPolling i b = b"
  by (simp add: startPolling_def)

lemma stopPolling_noop:
  "map_of (activePolling b) i = None \<Longrightarrow> stopPolling i b = b"
  by (simp add: stopPolling_def)

lemma polling_ok_startPolling: "polling_ok b \<Longrightarrow> polling_ok (startPolling i b)"
proof (cases "map_of (activePolling b) i")
  case (Some h)
  assume "polling_ok b"
  with Some show ?thesis by (simp add: startPolling_def)
next
  case None
  assume ok: "polling_ok b"
  have "\<forall>t \<in> set (intervals b). snd t \<noteq> i"
    using ok None by (auto simp: polling_ok_def list_all_iff)
  with ok None show ?thesis
    using set_alist_update [of i "next_timer b" "activePolling b"]
    by (auto simp: polling_ok_def startPolling_def setInterval_def list_all_iff update_conv')
qed

lemma polling_ok_stopPolling: "polling_ok b \<Longrightarrow> polling_ok (stopPolling i b)"
proof (cases "map_of (activePolling b) i")
  case None
  assume "polling_ok b"
  with None show ?thesis by (simp add: stopPolling_def)
next
  case (Some h)
  assume ok: "polling_ok b"
  have own: "\<forall>t \<in> set (intervals b). snd t = i \<longrightarrow> fst t = h"
    using ok Some by (auto simp: polling_ok_def list_all_iff)
  have other: "fst t \<noteq> h" if "t \<in> set (intervals b)" "snd t \<noteq> i" for t
    using that ok Some polling_ok_handle [of b i h "snd t"] by (auto simp: polling_ok_def list_all_iff)
  have rec: "(snd p, fst p) \<in> set (intervals b) \<and> snd p \<noteq> h"
    if "p \<in> set (activePolling b)" "fst p \<noteq> i" for p
    using that ok other [of "(snd p, fst p)"] by (auto simp: polling_ok_def list_all_iff)
  show ?thesis
    using ok Some own rec
    by (auto simp: polling_ok_def stopPolling_def clearInterval_def list_all_iff delete_conv'
        distinct_map_filter set_alist_delete)
qed

lemma startPolling_starts:
  "polling_ok b \<Longrightarrow> map_of (activePolling b) i = None \<Longrightarrow> active_loops i (startPolling i b) = 1"
proof -
  assume ok: "polling_ok b" and None: "map_of (activePolling b) i = None"
  have "\<forall>t \<in> set (intervals b). snd t \<noteq> i"
    using ok None by (auto simp: polling_ok_def list_all_iff)
  then have "filter (\<lambda>t. snd t = i) (intervals b) = []"
    by (auto simp: filter_empty_conv)
  with None show ?thesis
    by (simp add: active_loops_def startPolling_def setInterval_def)
qed

lemma stopPolling_stops:
  "polling_ok b \<Longrightarrow> active_loops i (stopPolling i b) = 0 \<and> map_of (activePolling (stopPolling i b)) i = None"
proof (cases "map_of (activePolling b) i")
  case None
  assume ok: "polling_ok b"
  have "\<forall>t \<in> set (intervals b). snd t \<noteq> i"
    using ok None by (auto simp: polling_ok_def list_all_iff)
  then have "filter (\<lambda>t. snd t = i) (intervals b) = []"
    by (auto simp: filter_empty_conv)
  with None show ?thesis by (simp add: stopPolling_def active_loops_def)
next
  case (Some h)
  assume ok: "polling_ok b"
  have "\<forall>t \<in> set (intervals b). snd t = i \<longrightarrow> fst t = h"
    using ok Some by (auto simp: polling_ok_def list_all_iff)
  then have "filter (\<lambda>t. snd t = i) (filter (\<lambda>t. fst t \<noteq> h) (intervals b)) = []"
    by (auto simp: filter_empty_conv)
  with Some show ?thesis
    by (simp add: stopPolling_def clearInterval_def active_loops_def delete_conv')
qed

lemma stopPolling_others:
  "polling_ok b \<Longrightarrow> j \<noteq> i \<Longrightarrow> active_loops j (stopPolling i b) = active_loops j b"
proof (cases "map_of (activePolling b) i")
  case None
  then show ?thesis by (simp add: stopPolling_def)
next
  case (Some h)
  assume ok: "polling_ok b" and ne: "j \<noteq> i"
  have "\<forall>t \<in> set (intervals b). snd t = j \<longrightarrow> fst t \<noteq> h"
    using ok Some ne polling_ok_handle [of b i h j] by (auto simp: polling_ok_def list_all_iff)
  then have "filter (\<lambda>t. snd t = j) (filter (\<lambda>t. fst t \<noteq> h) (intervals b))
             = filter (\<lambda>t. snd t = j) (intervals b)"
    by (auto intro: filter_cong)
  with Some show ?thesis
    by (simp add: stopPolling_def clearInterval_def active_loops_def)
qed

lemma streams_startPolling [simp]: "streams (startPolling i b) = streams b"
  by (simp add: startPolling_def setInterval_def split: prod.splits)

lemma streams_stopPolling [simp]: "streams (stopPolling i b) = streams b"
  by (simp add: stopPolling_def clearInterval_def split: option.splits)

lemma streams_updateStreamOrder [simp]: "streams (updateStreamOrder i r b) = streams b"
  by (simp add: updateStreamOrder_def)

lemma polling_ok_cong:
  "intervals b' = intervals b \<Longrightarrow> activePolling b' = activePolling b \<Longrightarrow>
   next_timer b' = next_timer b \<Longrightarrow> polling_ok b' = polling_ok b"
  by (simp add: polling_ok_def)

lemma polling_ok_updateStreamOrder [simp]:
  "polling_ok (updateStreamOrder i r b) = polling_ok b"
  by (rule polling_ok_cong) (simp_all add: updateStreamOrder_def)

lemma polling_ok_info [simp]:
  "polling_ok (b\<lparr>activeStreamsInfo := x\<rparr>) = polling_ok b"
  by (rule polling_ok_cong) simp_all

lemma polling_ok_order [simp]:
  "polling_ok (b\<lparr>streamOrder := x\<rparr>) = polling_ok b"
  by (rule polling_ok_cong) simp_all

lemma polling_ok_clients [simp]:
  "polling_ok (b\<lparr>wss_clients := x, connectedClients := y\<rparr>) = polling_ok b"
  by (rule polling_ok_cong) simp_all

lemma poll_not_found:
  "streams b = [] \<Longrightarrow>
   pollStreamStatus i out b = (b, [ConsoleLog (''Stream '' @ i @ '' not found, stopping polling'')])"
  by (simp add: pollStreamStatus_def find_stream_def)

lemma be_post_streams:
  "streams (be (snd (api_post_streams e u s))) = streams (be s) \<and>
   (polling_ok (be s) \<longrightarrow> polling_ok (be (snd (api_post_streams e u s))))"
  by (auto simp: api_post_streams_def Let_def polling_ok_startPolling split: prod.splits sum.splits)

lemma be_get_streams:
  "streams (be (snd (api_get_streams e s))) = streams (be s) \<and>
   (polling_ok (be s) \<longrightarrow> polling_ok (be (snd (api_get_streams e s))))"
  by (auto simp: api_get_streams_def Let_def split: prod.splits sum.splits)

lemma be_reorder:
  "streams (snd (api_reorder ids b)) = streams b \<and>
   (polling_ok b \<longrightarrow> polling_ok (snd (api_reorder ids b)))"
  by (auto simp: api_reorder_def split: option.splits)

lemma be_stop:
  "streams (be (snd (api_stop e i s))) = streams (be s) \<and>
   (polling_ok (be s) \<longrightarrow> polling_ok (be (snd (api_stop e i s))))"
  by (auto simp: api_stop_def Let_def polling_ok_stopPolling split: prod.splits sum.splits)

lemma be_delete:
  "streams (be (snd (api_delete e i s))) = streams (be s) \<and>
   (polling_ok (be s) \<longrightarrow> polling_ok (be (snd (api_delete e i s))))"
  by (auto simp: api_delete_def Let_def polling_ok_stopPolling split: prod.splits sum.splits)

lemma be_restart:
  "be (snd (api_restart e i ign s)) = be s"
  by (auto simp: api_restart_def split: prod.splits sum.splits)

lemma be_step:
  assumes "streams (be s) = []"
  shows "streams (be (fst (sys_step ev s))) = [] \<and>
         (polling_ok (be s) \<longrightarrow> polling_ok (be (fst (sys_step ev s)))) \<and>
         list_all (\<lambda>ef. \<exists>i. ef = ConsoleLog (''Stream '' @ i @ '' not found, stopping polling''))
           (snd (sys_step ev s))"
proof (cases ev)
  case (ApiCreate e u)
  with assms be_post_streams [of e u s] show ?thesis by simp
next
  case (ApiList e)
  with assms be_get_streams [of e s] show ?thesis by simp
next
  case (ApiReorder ids)
  with assms be_reorder [of ids "be s"] show ?thesis by simp
next
  case (ApiStop e i)
  with assms be_stop [of e i s] show ?thesis by simp
next
  case (ApiDelete e i)
  with assms be_delete [of e i s] show ?thesis by simp
next
  case (ApiRestart e i ign)
  with assms be_restart [of e i ign s] show ?thesis by simp
next
  case (Tick h out)
  with assms show ?thesis
    by (auto simp: in_backend_def poll_not_found split: option.splits)
next
  case (Timeout i out)
  with assms show ?thesis
    by (auto simp: in_backend_def poll_not_found)
next
  case (WsConnect c)
  with assms show ?thesis by simp
next
  case (WsClose c)
  with assms show ?thesis by simp
next
  case (Wrapper op)
  with assms show ?thesis by simp
qed

lemma be_run:
  "streams (be s) = [] \<Longrightarrow>
   streams (be (fst (sys_run evs s))) = [] \<and>
   (polling_ok (be s) \<longrightarrow> polling_ok (be (fst (sys_run evs s)))) \<and>
   list_all (\<lambda>ef. \<exists>i. ef = ConsoleLog (''Stream '' @ i @ '' not found, stopping polling''))
     (snd (sys_run evs s))"
proof (induction evs arbitrary: s)
  case Nil
  then show ?case by simp
next
  case (Cons ev evs)
  from be_step [OF Cons.prems, of ev] Cons.IH [of "fst (sys_step ev s)"]
  show ?case by (auto simp: split_beta)
qed

lemma be_reachable:
  "streams (be (fst (sys_run evs init_sys))) = [] \<and>
   polling_ok (be (fst (sys_run evs init_sys))) \<and>
   list_all (\<lambda>ef. \<exists>i. ef = ConsoleLog (''Stream '' @ i @ '' not found, stopping polling''))
     (snd (sys_run evs init_sys))"
  using be_run [of init_sys evs] polling_ok_init
  by (simp add: init_sys_def init_backend_def)

lemma loops_iff_recorded:
  assumes "polling_ok b"
  shows "(map_of (activePolling b) i \<noteq> None) = (active_loops i b = 1)"
proof (cases "map_of (activePolling b) i")
  case None
  have "\<forall>t \<in> set (intervals b). snd t \<noteq> i"
    using assms None by (auto simp: polling_ok_def list_all_iff)
  then have "filter (\<lambda>t. snd t = i) (intervals b) = []"
    by (auto simp: filter_empty_conv)
  with None show ?thesis by (simp add: active_loops_def)
next
  case (Some h)
  have "(h, i) \<in> set (intervals b)"
    using assms Some by (auto simp: polling_ok_def list_all_iff dest!: map_of_SomeD)
  then have "filter (\<lambda>t. snd t = i) (intervals b) \<noteq> []"
    by (force simp: filter_empty_conv)
  then have "active_loops i b \<noteq> 0"
    by (simp add: active_loops_def)
  with polling_ok_loops [OF assms, of i] Some show ?thesis by simp
qed

text \<open>
  C8: in every state the system can reach, a session id has at most one repeating poll
  timer, and it has one exactly when \<^verbatim>\<open>activePolling\<close> has the id. \<^verbatim>\<open>startPolling\<close> for an id
  that has a loop changes nothing, and for an id without one it starts exactly one.
  \<^verbatim>\<open>stopPolling\<close> leaves the id without a loop and the loops of the other ids as they were;
  for an id without a loop it changes nothing, so a second \<^verbatim>\<open>stopPolling\<close> has no effect.
\<close>

theorem one_polling_loop_per_session:
  assumes "b = be (fst (sys_run evs init_sys))"
  shows "active_loops i b \<le> 1 \<and>
         (map_of (activePolling b) i \<noteq> None) = (active_loops i b = 1) \<and>
         (map_of (activePolling b) i \<noteq> None \<longrightarrow> startPolling i b = b) \<and>
         (map_of (activePolling b) i = None \<longrightarrow> active_loops i (startPolling i b) = 1) \<and>
         active_loops i (stopPolling i b) = 0 \<and>
         (j \<noteq> i \<longrightarrow> active_loops j (stopPolling i b) = active_loops j b) \<and>
         (map_of (activePolling b) i = None \<longrightarrow> stopPolling i b = b) \<and>
         stopPolling i (stopPolling i b) = stopPolling i b"
proof -
  have ok: "polling_ok b"
    using assms be_reachable [of evs] by simp
  have twice: "stopPolling i (stopPolling i b) = stopPolling i b"
    using stopPolling_stops [OF ok, of i] by (simp add: stopPolling_noop)
  show ?thesis
    using polling_ok_loops [OF ok, of i] loops_iff_recorded [OF ok, of i]
      startPolling_noop [of b i] startPolling_starts [OF ok, of i]
      stopPolling_stops [OF ok, of i] stopPolling_others [OF ok, of j i]
      stopPolling_noop [of b i] twice
    by blast
qed

theorem one_polling_loop_per_session_witness:
  "active_loops ''1700000000000'' (be (fst (sys_run [ApiCreate env_ok (Some ''http://src/1'')] init_sys))) = 1 \<and>
   startPolling ''1700000000000'' (be (fst (sys_run [ApiCreate env_ok (Some ''http://src/1'')] init_sys)))
     = be (fst (sys_run [ApiCreate env_ok (Some ''http://src/1'')] init_sys)) \<and>
   active_loops ''1700000000000''
     (stopPolling ''1700000000000'' (be (fst (sys_run [ApiCreate env_ok (Some ''http://src/1'')] init_sys)))) = 0 \<and>
   active_loops ''B'' (startPolling ''B'' (be (fst (sys_run [ApiCreate env_ok (Some ''http://src/1'')] init_sys)))) = 1 \<and>
   stopPolling ''B'' (be (fst (sys_run [ApiCreate env_ok (Some ''http://src/1'')] init_sys)))
     = be (fst (sys_run [ApiCreate env_ok (Some ''http://src/1'')] init_sys))"
proof -
  let ?b = "be (fst (sys_run [ApiCreate env_ok (Some ''http://src/1'')] init_sys))"
  have rec: "map_of (activePolling ?b) ''1700000000000'' \<noteq> None \<and> map_of (activePolling ?b) ''B'' = None"
    by (simp add: be_eval hls_eval sample_eval)
  show ?thesis
    using one_polling_loop_per_session [OF refl, of "''1700000000000''" "[ApiCreate env_ok (Some ''http://src/1'')]" "''B''"]
      one_polling_loop_per_session [OF refl, of "''B''" "[ApiCreate env_ok (Some ''http://src/1'')]" "''B''"] rec
    by simp
qed

subsection \<open>The array of polled streams\<close>

text \<open>
  C3: \<^verbatim>\<open>streams\<close> is empty initially and after every run of the system, since no route,
  timer or event assigns to it. So every call of \<^verbatim>\<open>pollStreamStatus\<close>, for every stream id
  and every outcome the HTTP request could have, returns at its first guard: the state is
  unchanged and the only thing done is the \<^verbatim>\<open>not found\<close> line on the console. Over any run,
  the polling code therefore issues no status request, never calls \<^verbatim>\<open>updateStreamStats\<close>,
  and sends nothing to a WebSocket client.
\<close>

theorem streams_never_populated:
  "streams init_backend = [] \<and>
   streams (be (fst (sys_run evs init_sys))) = [] \<and>
   pollStreamStatus i out (be (fst (sys_run evs init_sys)))
     = (be (fst (sys_run evs init_sys)),
        [ConsoleLog (''Stream '' @ i @ '' not found, stopping polling'')]) \<and>
   list_all (\<lambda>ef. \<exists>j. ef = ConsoleLog (''Stream '' @ j @ '' not found, stopping polling''))
     (snd (sys_run evs init_sys))"
proof -
  have "streams (be (fst (sys_run evs init_sys))) = []"
    using be_reachable [of evs] by simp
  then show ?thesis
    using be_reachable [of evs] by (simp add: poll_not_found init_backend_def)
qed

subsection \<open>Errors of a poll\<close>



lemma poll_rejected_keeps_state:
  "fst (pollStreamStatus i (Rejected resp m) b) = b"
  by (auto simp: pollStreamStatus_def split: option.splits)





text \<open>
  The timers add up: with a repeating timer for session \<open>A\<close>, the poll of a tick sets a
  timer, and the poll of that timer sets the next one, while the ticks go on.
\<close>

lemma polls_add_timers:
  "snd (sys_run [Tick 0 (Rejected None ''timeout of 5000ms exceeded''),
                 Timeout ''A'' (Rejected None ''timeout of 5000ms exceeded''),
                 Tick 0 (Rejected None ''timeout of 5000ms exceeded'')]
          \<lparr>be = polled_backend\<lparr>activePolling := [(''A'', 0)], intervals := [(0, ''A'')],
                                next_timer := 1\<rparr>,
           hls = init_hls\<rparr>)
     = [HttpGetStatus (status_url ''A''), SetTimeout ''A'' 5000,
        HttpGetStatus (status_url ''A''), SetTimeout ''A'' 5000,
        HttpGetStatus (status_url ''A''), SetTimeout ''A'' 5000]"
  by (simp add: pollStreamStatus_def polled_backend_def find_stream_def init_backend_def
      in_backend_def)

subsection \<open>Sample runs\<close>

lemmas be_eval2 = be_eval with_details_def empty_info_def truthy_def or_else_def js_sort_def
  compareOrder_def json_body_def env_last_def env_cached_def sample_stream_def sample_info_def

lemma one_session_step:
  "sys_step (ApiCreate env_ok (Some ''http://src/1'')) init_sys
     = (\<lparr>be = init_backend
              \<lparr>activePolling := [(''1700000000000'', 0)],
               intervals := [(0, ''1700000000000'')],
               next_timer := 1,
               activeStreamsInfo :=
                 [(''1700000000000'', sample_info ''http://src/1'' ''2023-11-14T22:13:20.000Z'')],
               streamOrder := [''1700000000000'']\<rparr>,
      hls = \<lparr>activeStreams =
                [(''1700000000000'',
                  sample_stream ''1700000000000'' ''http://src/1'' ''2023-11-14T22:13:20.000Z'' ''running'' 0)],
             dirs = mkdir_p (streamDir ''1700000000000'') (mkdir_p STREAMS_DIR {}),
             procs = [0 \<mapsto> ''1700000000000''],
             signalled = {},
             unstarted = {},
             spawned = [(0, ffmpegArgs ''1700000000000'' ''http://src/1'' False)],
             next_pid = 1\<rparr>\<rparr>, [])"
  by (simp add: be_eval2 hls_eval sample_eval)

lemma two_sessions_step:
  "sys_step (ApiCreate env_later (Some ''http://src/2''))
     \<lparr>be = init_backend
              \<lparr>activePolling := [(''1700000000000'', 0)],
               intervals := [(0, ''1700000000000'')],
               next_timer := 1,
               activeStreamsInfo :=
                 [(''1700000000000'', sample_info ''http://src/1'' ''2023-11-14T22:13:20.000Z'')],
               streamOrder := [''1700000000000'']\<rparr>,
      hls = \<lparr>activeStreams =
                [(''1700000000000'',
                  sample_stream ''1700000000000'' ''http://src/1'' ''2023-11-14T22:13:20.000Z'' ''running'' 0)],
             dirs = mkdir_p (streamDir ''1700000000000'') (mkdir_p STREAMS_DIR {}),
             procs = [0 \<mapsto> ''1700000000000''],
             signalled = {},
             unstarted = {},
             spawned = [(0, ffmpegArgs ''1700000000000'' ''http://src/1'' False)],
             next_pid = 1\<rparr>\<rparr>
   = (two_sessions, [])"
  by (simp add: two_sessions_def be_eval2 hls_eval sample_eval insert_commute)

lemma two_sessions_run:
  "fst (sys_run [ApiCreate env_ok (Some ''http://src/1''),
                 ApiCreate env_later (Some ''http://src/2'')] init_sys) = two_sessions"
  by (simp only: sys_run.simps one_session_step two_sessions_step Let_def prod.case fst_conv)

lemma three_sessions_run:
  "fst (sys_run [ApiCreate env_last (Some ''http://src/3''),
                 ApiReorder (Some [''1700000120000'', ''1700000000000''])] two_sessions) = three_sessions"
  by (simp add: two_sessions_def three_sessions_def be_eval2 hls_eval sample_eval insert_commute)

subsection \<open>Reordering\<close>

text \<open>
  C2, as the specification states it, does not hold: the ids that a reorder request may
  name are the keys of \<^verbatim>\<open>activeStreamsInfo\<close>
  (\<^verbatim>\<open>// Validate that all streamIds exist in activeStreamsInfo\<close>), and these are not the ids
  of the registry. Two sessions are created through the backend.
  \<^enum> The first is then deleted at the wrapper itself: its id is the id of no session any
    more, and yet a reorder request that names it succeeds, and the stored order becomes
    the list of the request.
  \<^enum> Or the first is stopped through the backend: it is still registered, with status
    \<^verbatim>\<open>'stopped'\<close>, and yet a reorder request that names it is rejected.
\<close>

theorem reorder_registry_counterexample:
  "two_sessions = fst (sys_run [ApiCreate env_ok (Some ''http://src/1''),
                                ApiCreate env_later (Some ''http://src/2'')] init_sys) \<and>
   map_of (activeStreams (hls (fst (sys_step (Wrapper (Delete env_last ''1700000000000'')) two_sessions))))
       ''1700000000000'' = None \<and>
   api_reorder (Some [''1700000060000'', ''1700000000000''])
       (be (fst (sys_step (Wrapper (Delete env_last ''1700000000000'')) two_sessions)))
     = (Json (), (be two_sessions)\<lparr>streamOrder := [''1700000060000'', ''1700000000000'']\<rparr>) \<and>
   fst (api_stop env_last ''1700000000000'' two_sessions) = Json () \<and>
   map_option status
       (map_of (activeStreams (hls (snd (api_stop env_last ''1700000000000'' two_sessions))))
          ''1700000000000'') = Some ''stopped'' \<and>
   api_reorder (Some [''1700000060000'', ''1700000000000''])
       (be (snd (api_stop env_last ''1700000000000'' two_sessions)))
     = (Error 400 ''Invalid stream ID in order array'',
        be (snd (api_stop env_last ''1700000000000'' two_sessions)))"
proof -
  have del: "map_of (activeStreams (hls (fst (sys_step (Wrapper (Delete env_last ''1700000000000'')) two_sessions))))
       ''1700000000000'' = None \<and>
     api_reorder (Some [''1700000060000'', ''1700000000000''])
       (be (fst (sys_step (Wrapper (Delete env_last ''1700000000000'')) two_sessions)))
     = (Json (), (be two_sessions)\<lparr>streamOrder := [''1700000060000'', ''1700000000000'']\<rparr>)"
    by (simp add: two_sessions_def be_eval2 hls_eval sample_eval)
  have stop: "fst (api_stop env_last ''1700000000000'' two_sessions) = Json () \<and>
     map_option status
       (map_of (activeStreams (hls (snd (api_stop env_last ''1700000000000'' two_sessions))))
          ''1700000000000'') = Some ''stopped'' \<and>
     api_reorder (Some [''1700000060000'', ''1700000000000''])
       (be (snd (api_stop env_last ''1700000000000'' two_sessions)))
     = (Error 400 ''Invalid stream ID in order array'',
        be (snd (api_stop env_last ''1700000000000'' two_sessions)))"
    by (simp add: two_sessions_def be_eval2 hls_eval sample_eval)
  show ?thesis
    using two_sessions_run del stop by simp
qed

text \<open>
  C2 (amended): the sessions a reorder request may name are those with an entry in
  \<^verbatim>\<open>activeStreamsInfo\<close>, the display data that the backend caches. A request whose list has
  an id without such an entry is rejected with status 400 and the backend state, the stored
  order included, is what it was; so is a request whose \<^verbatim>\<open>streamIds\<close> is not an array. When
  every id of the list has an entry, the request succeeds and the stored order becomes the
  given list as a whole, nothing else changing.
\<close>

theorem reorder_all_or_nothing:
  "api_reorder None b = (Error 400 ''streamIds must be an array'', b) \<and>
   ((\<exists>i \<in> set ids. map_of (activeStreamsInfo b) i = None) \<longrightarrow>
      api_reorder (Some ids) b = (Error 400 ''Invalid stream ID in order array'', b)) \<and>
   ((\<forall>i \<in> set ids. map_of (activeStreamsInfo b) i \<noteq> None) \<longrightarrow>
      api_reorder (Some ids) b = (Json (), b\<lparr>streamOrder := ids\<rparr>))"
  by (auto simp: api_reorder_def list_all_iff)

theorem reorder_all_or_nothing_witness:
  "api_reorder (Some [''B'', ''A'']) (init_backend\<lparr>activeStreamsInfo := [(''A'', empty_info)], streamOrder := [''A'']\<rparr>)
     = (Error 400 ''Invalid stream ID in order array'',
        init_backend\<lparr>activeStreamsInfo := [(''A'', empty_info)], streamOrder := [''A'']\<rparr>) \<and>
   api_reorder (Some [''B'', ''A''])
       (init_backend\<lparr>activeStreamsInfo := [(''A'', empty_info), (''B'', empty_info)], streamOrder := [''A'']\<rparr>)
     = (Json (),
        init_backend\<lparr>activeStreamsInfo := [(''A'', empty_info), (''B'', empty_info)],
                      streamOrder := [''B'', ''A'']\<rparr>)"
  using reorder_all_or_nothing
          [of "init_backend\<lparr>activeStreamsInfo := [(''A'', empty_info)], streamOrder := [''A'']\<rparr>"
              "[''B'', ''A'']"]
        reorder_all_or_nothing
          [of "init_backend\<lparr>activeStreamsInfo := [(''A'', empty_info), (''B'', empty_info)], streamOrder := [''A'']\<rparr>"
              "[''B'', ''A'']"]
  by simp

subsection \<open>The ordered listing\<close>

lemma indexOf_ge: "- 1 \<le> indexOf xs x"
  by (induction xs) auto

lemma indexOf_absent: "(indexOf xs x = - 1) = (x \<notin> set xs)"
proof (induction xs)
  case Nil
  then show ?case by simp
next
  case (Cons y ys)
  have "indexOf ys x + 1 \<noteq> - 1"
    using indexOf_ge [of ys x] by arith
  with Cons show ?case by auto
qed

lemma indexOf_less: "indexOf xs x < int (length xs)"
  by (induction xs) auto

lemma indexOf_present: "x \<in> set xs \<Longrightarrow> 0 \<le> indexOf xs x"
  using indexOf_ge [of xs x] indexOf_absent [of xs x] by arith

lemma indexOf_inj: "x \<in> set xs \<Longrightarrow> indexOf xs x = indexOf xs y \<Longrightarrow> x = y"
proof (induction xs)
  case Nil
  then show ?case by simp
next
  case (Cons z zs)
  have a: "indexOf zs x + 1 \<noteq> 0" and b: "indexOf zs y + 1 \<noteq> 0" if "indexOf zs x \<noteq> -1" "indexOf zs y \<noteq> -1"
    using indexOf_ge [of zs x] indexOf_ge [of zs y] that by arith+
  show ?case
  proof (cases "z = x")
    case True
    with Cons.prems indexOf_ge [of zs y] show ?thesis
      by (auto split: if_splits)
  next
    case False
    with Cons.prems have x: "x \<in> set zs" by simp
    then have nx: "indexOf zs x \<noteq> - 1" by (simp add: indexOf_absent)
    with Cons.prems False indexOf_ge [of zs x] have "z \<noteq> y"
      by (auto split: if_splits)
    with Cons.prems False nx indexOf_ge [of zs x] have "indexOf zs x = indexOf zs y"
      by (auto split: if_splits)
    with Cons.IH x show ?thesis by simp
  qed
qed

lemma order_key_in: "d_id d \<in> set order \<Longrightarrow> order_key order d = indexOf order (d_id d)"
  by (simp add: order_key_def indexOf_absent)

lemma order_key_out: "d_id d \<notin> set order \<Longrightarrow> order_key order d = int (length order)"
  by (simp add: order_key_def indexOf_absent)

lemma order_key_less: "(order_key order d < int (length order)) = (d_id d \<in> set order)"
  using indexOf_less [of order "d_id d"] by (auto simp: order_key_def indexOf_absent)

lemma compareOrder_le:
  "(compareOrder order a b \<le> 0) = (order_key order a \<le> order_key order b)"
  using indexOf_less [of order "d_id a"] indexOf_less [of order "d_id b"]
  by (auto simp: compareOrder_def order_key_def Let_def)

lemma insert_sorted_insort:
  "insert_sorted (compareOrder order) x ys = insort_key (order_key order) x ys"
  by (induction ys) (simp_all add: compareOrder_le)

lemma js_sort_sort_key:
  "js_sort (compareOrder order) xs = sort_key (order_key order) xs"
  by (induction xs) (simp_all add: js_sort_def sort_key_def insert_sorted_insort)

lemma sorted_split:
  fixes k :: "'a \<Rightarrow> int"
  shows "sorted (map k xs) \<Longrightarrow> xs = filter (\<lambda>x. k x < n) xs @ filter (\<lambda>x. \<not> k x < n) xs"
proof (induction xs)
  case Nil
  then show ?case by simp
next
  case (Cons x xs)
  show ?case
  proof (cases "k x < n")
    case True
    with Cons show ?thesis by simp
  next
    case False
    with Cons.prems have "\<forall>y \<in> set xs. \<not> k y < n" by auto
    then have "filter (\<lambda>x. k x < n) xs = []" "filter (\<lambda>x. \<not> k x < n) xs = xs"
      by (simp_all add: filter_empty_conv filter_id_conv)
    with False show ?thesis by simp
  qed
qed

lemma sorted_listing:
  fixes order :: "string list" and ds :: "stream_details list"
  defines "out \<equiv> js_sort (compareOrder order) ds"
  shows "mset out = mset ds"
    and "out = filter (\<lambda>d. d_id d \<in> set order) out @ filter (\<lambda>d. d_id d \<notin> set order) out"
    and "sorted (map (\<lambda>d. indexOf order (d_id d)) (filter (\<lambda>d. d_id d \<in> set order) out))"
    and "filter (\<lambda>d. d_id d \<notin> set order) out = filter (\<lambda>d. d_id d \<notin> set order) ds"
proof -
  let ?k = "order_key order"
  have out: "out = sort_key ?k ds"
    by (simp add: out_def js_sort_sort_key)
  show "mset out = mset ds"
    by (simp add: out)
  have srt: "sorted (map ?k out)"
    by (simp add: out)
  from sorted_split [OF srt, of "int (length order)"]
  show "out = filter (\<lambda>d. d_id d \<in> set order) out @ filter (\<lambda>d. d_id d \<notin> set order) out"
    by (simp add: order_key_less)
  have "sorted (map ?k (filter (\<lambda>d. d_id d \<in> set order) out))"
    using srt by (rule sorted_filter)
  moreover have "map ?k (filter (\<lambda>d. d_id d \<in> set order) out)
      = map (\<lambda>d. indexOf order (d_id d)) (filter (\<lambda>d. d_id d \<in> set order) out)"
    by (rule map_cong) (simp_all add: order_key_in)
  ultimately show "sorted (map (\<lambda>d. indexOf order (d_id d)) (filter (\<lambda>d. d_id d \<in> set order) out))"
    by simp
  have "(d_id d \<notin> set order) = (?k d = int (length order))" for d
    using order_key_less [of order d] by (cases "d_id d \<in> set order") (simp_all add: order_key_out)
  then have "(\<lambda>d. d_id d \<notin> set order) = (\<lambda>d. ?k d = int (length order))"
    by (simp add: fun_eq_iff)
  then show "filter (\<lambda>d. d_id d \<notin> set order) out = filter (\<lambda>d. d_id d \<notin> set order) ds"
    by (simp add: out sort_key_stable)
qed


lemma map_details_ids: "map d_id (fst (map_details ch sts infos)) = map sid sts"
  by (induction sts arbitrary: infos) (simp_all add: with_details_def Let_def split_beta)

lemma api_get_streams_Json:
  assumes "fst (api_get_streams e s) = Json out"
  shows "out = js_sort (compareOrder (streamOrder (be s)))
                 (fst (map_details (concat (cache e)) (get_streams (hls s)) (activeStreamsInfo (be s))))"
  using assms by (auto simp: api_get_streams_def axios_def Let_def split_beta split: option.splits)

lemma indexOf_self: "distinct xs \<Longrightarrow> map (indexOf xs) xs = map int [0..<length xs]"
proof (induction xs)
  case Nil
  then show ?case by simp
next
  case (Cons y ys)
  have "map (indexOf (y # ys)) ys = map (\<lambda>x. indexOf ys x + 1) ys"
    using Cons.prems by (intro map_cong) (auto simp: indexOf_absent)
  also have "\<dots> = map (\<lambda>i. i + 1) (map (indexOf ys) ys)"
    by simp
  also have "\<dots> = map (\<lambda>i. int i + 1) [0..<length ys]"
    using Cons by simp
  also have "\<dots> = map int (map Suc [0..<length ys])"
    by simp
  also have "\<dots> = map int [Suc 0..<Suc (length ys)]"
    by (simp only: map_Suc_upt)
  finally have tl: "map (indexOf (y # ys)) ys = map int [Suc 0..<Suc (length ys)]" .
  have hd: "indexOf (y # ys) y = 0" by simp
  have "map (indexOf (y # ys)) (y # ys) = indexOf (y # ys) y # map (indexOf (y # ys)) ys"
    by (simp only: list.map)
  also have "\<dots> = 0 # map int [Suc 0..<Suc (length ys)]"
    by (simp only: hd tl)
  also have "\<dots> = map int [0..<length (y # ys)]"
    by (simp add: upt_conv_Cons del: upt_Suc)
  finally show ?case .
qed

lemma sorted_indexOf_filter:
  assumes "distinct xs"
  shows "sorted (map (indexOf xs) (filter P xs)) \<and> distinct (map (indexOf xs) (filter P xs))"
proof -
  have "sorted (map (indexOf xs) xs) \<and> distinct (map (indexOf xs) xs)"
    using assms by (simp add: indexOf_self sorted_map distinct_map inj_on_def del: map_map)
  then show ?thesis
    by (metis distinct_map_filter sorted_filter)
qed

lemma stored_order_exact:
  fixes order :: "string list" and ds :: "stream_details list"
  assumes "distinct order" "distinct (map d_id ds)"
  shows "map d_id (filter (\<lambda>d. d_id d \<in> set order) (js_sort (compareOrder order) ds))
         = filter (\<lambda>i. i \<in> set (map d_id ds)) order"
proof -
  define out where "out = js_sort (compareOrder order) ds"
  define L where "L = map d_id (filter (\<lambda>d. d_id d \<in> set order) out)"
  define R where "R = filter (\<lambda>i. i \<in> set (map d_id ds)) order"
  have perm: "mset out = mset ds"
    unfolding out_def by (rule sorted_listing(1))
  then have "mset (map d_id out) = mset (map d_id ds)" by simp
  then have dist: "distinct (map d_id out)"
    using assms(2) by (metis mset_eq_imp_distinct_iff)
  have sets: "set out = set ds"
    using perm by (metis mset_eq_setD)
  have "L = filter (\<lambda>i. i \<in> set order) (map d_id out)"
    by (simp add: L_def filter_map comp_def)
  then have dL: "distinct L"
    using dist by simp
  have sL: "sorted (map (indexOf order) L)"
    using sorted_listing(3) [of order ds] by (simp add: L_def out_def comp_def)
  have setL: "set L = set R"
    using sets by (auto simp: L_def R_def)
  have sub: "set L \<subseteq> set order"
    by (auto simp: L_def)
  have inj: "inj_on (indexOf order) (set L \<union> set R)"
    using sub setL by (auto simp: inj_on_def dest: indexOf_inj)
  have "distinct (map (indexOf order) L)"
    using dL inj by (simp add: distinct_map inj_on_Un)
  moreover have "set (map (indexOf order) L) = set (map (indexOf order) R)"
    using setL by simp
  moreover have "sorted (map (indexOf order) R) \<and> distinct (map (indexOf order) R)"
    unfolding R_def using assms(1) by (rule sorted_indexOf_filter)
  ultimately have "map (indexOf order) L = map (indexOf order) R"
    using sL by (intro sorted_distinct_set_unique) simp_all
  with inj have "L = R"
    by (simp add: inj_on_map_eq_map)
  then show ?thesis
    by (simp add: L_def R_def out_def)
qed

text \<open>
  C9: a successful \<^verbatim>\<open>GET /api/streams\<close> returns the sessions of the wrapper's listing, each
  once, such that (1) the sessions whose id is in the stored order all come before the
  sessions whose id is not; (2) the sessions whose id is in the stored order are sorted by
  the position of their id in it, and when neither the stored order nor the listing has a
  duplicate, their ids are exactly the stored order restricted to the sessions that exist;
  (3) the sessions whose id is not in the stored order keep the relative order they have
  in the wrapper's listing.
\<close>

theorem listing_follows_order:
  assumes "fst (api_get_streams e s) = Json out"
  shows "mset (map d_id out) = mset (map sid (get_streams (hls s))) \<and>
         out = filter (\<lambda>d. d_id d \<in> set (streamOrder (be s))) out
               @ filter (\<lambda>d. d_id d \<notin> set (streamOrder (be s))) out \<and>
         sorted (map (\<lambda>d. indexOf (streamOrder (be s)) (d_id d))
                   (filter (\<lambda>d. d_id d \<in> set (streamOrder (be s))) out)) \<and>
         map d_id (filter (\<lambda>d. d_id d \<notin> set (streamOrder (be s))) out)
           = filter (\<lambda>i. i \<notin> set (streamOrder (be s))) (map sid (get_streams (hls s))) \<and>
         (distinct (streamOrder (be s)) \<and> distinct (map sid (get_streams (hls s))) \<longrightarrow>
            map d_id (filter (\<lambda>d. d_id d \<in> set (streamOrder (be s))) out)
              = filter (\<lambda>i. i \<in> set (map sid (get_streams (hls s)))) (streamOrder (be s)))"
proof -
  define order where "order = streamOrder (be s)"
  define ds where "ds = fst (map_details (concat (cache e)) (get_streams (hls s)) (activeStreamsInfo (be s)))"
  have out: "out = js_sort (compareOrder order) ds"
    using api_get_streams_Json [OF assms] by (simp add: order_def ds_def)
  have ids: "map d_id ds = map sid (get_streams (hls s))"
    by (simp add: ds_def map_details_ids)
  have "mset (map d_id out) = mset (map d_id ds)"
    using sorted_listing(1) [of order ds] by (simp add: out)
  then have a: "mset (map d_id out) = mset (map sid (get_streams (hls s)))"
    by (simp add: ids)
  have b: "out = filter (\<lambda>d. d_id d \<in> set order) out @ filter (\<lambda>d. d_id d \<notin> set order) out"
    unfolding out by (rule sorted_listing(2))
  have c: "sorted (map (\<lambda>d. indexOf order (d_id d)) (filter (\<lambda>d. d_id d \<in> set order) out))"
    unfolding out by (rule sorted_listing(3))
  have "map d_id (filter (\<lambda>d. d_id d \<notin> set order) out) = map d_id (filter (\<lambda>d. d_id d \<notin> set order) ds)"
    unfolding out by (simp only: sorted_listing(4))
  also have "\<dots> = filter (\<lambda>i. i \<notin> set order) (map d_id ds)"
    by (simp add: filter_map comp_def)
  finally have d: "map d_id (filter (\<lambda>d. d_id d \<notin> set order) out)
      = filter (\<lambda>i. i \<notin> set order) (map sid (get_streams (hls s)))"
    by (simp only: ids)
  have e: "map d_id (filter (\<lambda>d. d_id d \<in> set order) out)
      = filter (\<lambda>i. i \<in> set (map sid (get_streams (hls s)))) order"
    if "distinct order" "distinct (map sid (get_streams (hls s)))"
    using stored_order_exact [of order ds] that by (simp only: out ids)
  show ?thesis
    using a b c d e unfolding order_def by blast
qed

theorem listing_follows_order_witness:
  "fst (api_get_streams env_last three_sessions)
     = Json (json_body (fst (api_get_streams env_last three_sessions))) \<and>
   map sid (get_streams (hls three_sessions))
     = [''1700000000000'', ''1700000060000'', ''1700000120000''] \<and>
   streamOrder (be three_sessions) = [''1700000120000'', ''1700000000000''] \<and>
   map d_id (json_body (fst (api_get_streams env_last three_sessions)))
     = [''1700000120000'', ''1700000000000'', ''1700000060000'']"
proof -
  have h: "fst (api_get_streams env_last three_sessions)
             = Json (json_body (fst (api_get_streams env_last three_sessions)))"
    by (simp add: three_sessions_def be_eval2 hls_eval sample_eval)
  have ids: "map d_id (json_body (fst (api_get_streams env_last three_sessions)))
             = [''1700000120000'', ''1700000000000'', ''1700000060000'']"
    by (simp add: three_sessions_def be_eval2 hls_eval sample_eval)
  have reg: "map sid (get_streams (hls three_sessions))
             = [''1700000000000'', ''1700000060000'', ''1700000120000''] \<and>
             streamOrder (be three_sessions) = [''1700000120000'', ''1700000000000'']"
    by (simp add: three_sessions_def be_eval2 hls_eval)
  show ?thesis
    using listing_follows_order [OF h] h ids reg by simp
qed

subsection \<open>The registry along runs of the system\<close>












subsection \<open>Stopping a session through the backend\<close>


lemma activeStreamsInfo_stopPolling [simp]:
  "activeStreamsInfo (stopPolling i b) = activeStreamsInfo b"
  by (simp add: stopPolling_def clearInterval_def split: option.splits)

lemma streamOrder_stopPolling [simp]:
  "streamOrder (stopPolling i b) = streamOrder b"
  by (simp add: stopPolling_def clearInterval_def split: option.splits)

lemma streamOrder_startPolling [simp]:
  "streamOrder (startPolling i b) = streamOrder b"
  by (simp add: startPolling_def setInterval_def split: option.splits)













subsection \<open>Restarting a session: identity, start time and statistics\<close>

lemma be_api_restart: "be (snd (api_restart e i ign s)) = be s"
  by (auto simp: api_restart_def split: prod.splits sum.splits)

text \<open>
  So a restart clears no statistics: what is recorded for a session, in any state, is still
  recorded after the restart.
\<close>

lemma restart_keeps_stats:
  "recorded_stats k (be (snd (api_restart e i ign s))) = recorded_stats k (be s)"
  by (simp add: be_api_restart)

lemma restart_keeps_stats_sample:
  "recorded_stats ''A''
     (be (snd (api_restart env_last ''A'' False
        \<lparr>be = polled_backend\<lparr>streams := [\<lparr>bs_id = ''A'', bs_stats = Some ''bitrate=1''\<rparr>]\<rparr>,
         hls = hls_run [Start env_ok req_A] init_hls\<rparr>)))
     = Some ''bitrate=1''"
  by (simp add: be_api_restart recorded_stats_def find_stream_def)








end
